theory Spec2Isabelle
  imports Complex_Main "HOL-Library.AList"
begin

section \<open>Python string primitives used by the worker scripts\<close>

text \<open>
  \<open>s.split(c)\<close> for a one-character separator: the string is cut at every occurrence of
  the separator, so \<open>n\<close> separators always give \<open>n + 1\<close> pieces, some possibly empty.
\<close>

fun str_split :: "char \<Rightarrow> string \<Rightarrow> string list" where
  "str_split c [] = [[]]"
| "str_split c (x # xs) =
     (if x = c then [] # str_split c xs
      else (case str_split c xs of
              [] \<Rightarrow> [[x]]
            | t # ts \<Rightarrow> (x # t) # ts))"

definition startswith :: "string \<Rightarrow> string \<Rightarrow> bool" where
  "startswith s p = (take (length p) s = p)"

definition endswith :: "string \<Rightarrow> string \<Rightarrow> bool" where
  "endswith s p = (length p \<le> length s \<and> drop (length s - length p) s = p)"

text \<open>\<open>sub in s\<close> for two strings: substring test.\<close>

fun str_contains :: "string \<Rightarrow> string \<Rightarrow> bool" where
  "str_contains [] sub = (sub = [])"
| "str_contains (c # cs) sub = (startswith (c # cs) sub \<or> str_contains cs sub)"

section \<open>Errors and process control\<close>

datatype error =
    GetoptError
  | ValueError
  | RuntimeError
  | ReError
  | FileExistsError
  | FileNotFoundError
  | NotADirectoryError
  | IsADirectoryError
  | PermissionError

text \<open>
  How a piece of the script hands control on: \<open>Next\<close> falls through to the following
  statement (or loop iteration), \<open>Break\<close> leaves the innermost \<open>for\<close> loop,
  \<open>Exit n\<close> is \<open>sys.exit\<close>/\<open>exit\<close>/\<open>SystemExit\<close> with status \<open>n\<close>, and
  \<open>Raise e\<close> is an exception that nothing has caught yet.
\<close>

datatype ctl = Next | Break | Exit int | Raise error

text \<open>The exit status of the Python process: an uncaught exception ends it with status 1.\<close>

fun exit_status :: "ctl \<Rightarrow> int" where
  "exit_status (Exit n) = n"
| "exit_status (Raise e) = 1"
| "exit_status Next = 0"
| "exit_status Break = 0"

datatype message = Version | Usage | MustProvidePattern | MustProvideCommand

datatype out = Stdout message | Stderr message

section \<open>The standard library's getopt\<close>

text \<open>
  \<open>getopt.getopt\<close> of the Python standard library, function by function
  (\<open>short_has_arg\<close>, \<open>do_shorts\<close>, \<open>long_has_args\<close>, \<open>do_longs\<close>, \<open>getopt\<close>).
  Every \<open>raise GetoptError\<close> is the value \<open>Inl GetoptError\<close>.
\<close>

type_synonym opts = "(string \<times> string) list"

fun short_has_arg :: "char \<Rightarrow> string \<Rightarrow> error + bool" where
  "short_has_arg opt [] = Inl GetoptError"
| "short_has_arg opt (c # cs) =
     (if opt = c \<and> c \<noteq> CHR '':'' then Inr (startswith cs '':'')
      else short_has_arg opt cs)"

fun do_shorts :: "opts \<Rightarrow> string \<Rightarrow> string \<Rightarrow> string list \<Rightarrow> error + (opts \<times> string list)" where
  "do_shorts opts [] shortopts args = Inr (opts, args)"
| "do_shorts opts (opt # optstring) shortopts args =
     (case short_has_arg opt shortopts of
        Inl e \<Rightarrow> Inl e
      | Inr True \<Rightarrow>
          (if optstring = [] then
             (case args of
                [] \<Rightarrow> Inl GetoptError
              | a # rest \<Rightarrow> Inr (opts @ [([CHR ''-'', opt], a)], rest))
           else Inr (opts @ [([CHR ''-'', opt], optstring)], args))
      | Inr False \<Rightarrow> do_shorts (opts @ [([CHR ''-'', opt], [])]) optstring shortopts args)"

definition long_has_args :: "string \<Rightarrow> string list \<Rightarrow> error + (bool \<times> string)" where
  "long_has_args opt longopts =
     (let possibilities = filter (\<lambda>l. startswith l opt) longopts in
      if possibilities = [] then Inl GetoptError
      else if opt \<in> set possibilities then Inr (False, opt)
      else if (opt @ ''='') \<in> set possibilities then Inr (True, opt)
      else (case possibilities of
              [unique_match] \<Rightarrow>
                (if endswith unique_match ''='' then Inr (True, butlast unique_match)
                 else Inr (False, unique_match))
            | _ \<Rightarrow> Inl GetoptError))"

definition do_longs :: "opts \<Rightarrow> string \<Rightarrow> string list \<Rightarrow> string list \<Rightarrow> error + (opts \<times> string list)" where
  "do_longs opts opt0 longopts args =
     (let (opt, optarg) =
            (if CHR ''='' \<in> set opt0
             then (takeWhile (\<lambda>c. c \<noteq> CHR ''='') opt0,
                   Some (tl (dropWhile (\<lambda>c. c \<noteq> CHR ''='') opt0)))
             else (opt0, None))
      in case long_has_args opt longopts of
           Inl e \<Rightarrow> Inl e
         | Inr (has_arg, name) \<Rightarrow>
             (if has_arg then
                (case optarg of
                   None \<Rightarrow>
                     (case args of
                        [] \<Rightarrow> Inl GetoptError
                      | a # rest \<Rightarrow> Inr (opts @ [(''--'' @ name, a)], rest))
                 | Some v \<Rightarrow> Inr (opts @ [(''--'' @ name, v)], args))
              else
                (case optarg of
                   Some v \<Rightarrow> Inl GetoptError
                 | None \<Rightarrow> Inr (opts @ [(''--'' @ name, [])], args))))"

function getopt_loop :: "opts \<Rightarrow> string list \<Rightarrow> string \<Rightarrow> string list \<Rightarrow> error + (opts \<times> string list)" where
  "getopt_loop opts [] shortopts longopts = Inr (opts, [])"
| "getopt_loop opts (a # rest) shortopts longopts =
     (if startswith a ''-'' \<and> a \<noteq> ''-'' then
        (if a = ''--'' then Inr (opts, rest)
         else if startswith a ''--'' then
           (case do_longs opts (drop 2 a) longopts rest of
              Inl e \<Rightarrow> Inl e
            | Inr (opts', args') \<Rightarrow> getopt_loop opts' args' shortopts longopts)
         else
           (case do_shorts opts (drop 1 a) shortopts rest of
              Inl e \<Rightarrow> Inl e
            | Inr (opts', args') \<Rightarrow> getopt_loop opts' args' shortopts longopts))
      else Inr (opts, a # rest))"
  by pat_completeness auto
termination
proof -
  have do_shorts_length:
    "do_shorts opts s shortopts args = Inr (opts', args') \<Longrightarrow> length args' \<le> length args"
    for opts s shortopts args opts' args'
    by (induction opts s shortopts args rule: do_shorts.induct)
       (auto split: sum.splits bool.splits if_splits list.splits)
  have do_longs_length:
    "do_longs opts s longopts args = Inr (opts', args') \<Longrightarrow> length args' \<le> length args"
    for opts s longopts args opts' args'
    by (auto simp: do_longs_def Let_def
             split: sum.splits if_splits list.splits option.splits prod.splits)
  show ?thesis
    by (relation "measure (\<lambda>(opts, args, shortopts, longopts). length args)")
       (auto dest: do_longs_length do_shorts_length simp: le_imp_less_Suc)
qed

definition getopt :: "string list \<Rightarrow> string \<Rightarrow> string list \<Rightarrow> error + (opts \<times> string list)" where
  "getopt args shortopts longopts = getopt_loop [] args shortopts longopts"

section \<open>The filesystem\<close>

text \<open>
  The shared filesystem is an association list from absolute paths (lists of components
  below the root) to nodes; the root itself is always a directory. The order of the list
  is the order in which a directory listing presents its entries. Permissions and
  symbolic links are not part of the model.
\<close>

type_synonym path = "string list"

datatype node = Dir | File string

type_synonym filesystem = "(path \<times> node) list"

definition lookup :: "filesystem \<Rightarrow> path \<Rightarrow> node option" where
  "lookup fs p = (if p = [] then Some Dir else map_of fs p)"

definition children :: "filesystem \<Rightarrow> path \<Rightarrow> string list" where
  "children fs p = map (\<lambda>(q, n). last q) (filter (\<lambda>(q, n). q \<noteq> [] \<and> butlast q = p) fs)"

text \<open>Exclusive creation: the call fails when anything already has this name.\<close>

definition create_x :: "filesystem \<Rightarrow> path \<Rightarrow> string \<Rightarrow> error + filesystem" where
  "create_x fs p content =
     (if lookup fs p \<noteq> None then Inl FileExistsError
      else (case lookup fs (butlast p) of
              None \<Rightarrow> Inl FileNotFoundError
            | Some (File c) \<Rightarrow> Inl NotADirectoryError
            | Some Dir \<Rightarrow> Inr (AList.update p (File content) fs)))"

text \<open>Opening for writing creates the file or truncates the one that is there.\<close>

definition create_w :: "filesystem \<Rightarrow> path \<Rightarrow> error + filesystem" where
  "create_w fs p =
     (case lookup fs p of
        Some Dir \<Rightarrow> Inl IsADirectoryError
      | Some (File c) \<Rightarrow> Inr (AList.update p (File []) fs)
      | None \<Rightarrow>
          (case lookup fs (butlast p) of
             None \<Rightarrow> Inl FileNotFoundError
           | Some (File c) \<Rightarrow> Inl NotADirectoryError
           | Some Dir \<Rightarrow> Inr (AList.update p (File []) fs)))"

definition write_file :: "filesystem \<Rightarrow> path \<Rightarrow> string \<Rightarrow> filesystem" where
  "write_file fs p content = AList.update p (File content) fs"

text \<open>
  A path string is resolved against the working directory component by component:
  empty components and \<open>.\<close> stay in place, \<open>..\<close> steps up.
\<close>

fun normalize :: "path \<Rightarrow> string list \<Rightarrow> path" where
  "normalize cur [] = cur"
| "normalize cur (c # cs) =
     (if c = [] \<or> c = ''.'' then normalize cur cs
      else if c = ''..'' then normalize (butlast cur) cs
      else normalize (cur @ [c]) cs)"

definition resolve :: "path \<Rightarrow> string \<Rightarrow> path" where
  "resolve wd s =
     (if startswith s ''/'' then normalize [] (str_split CHR ''/'' s)
      else normalize wd (str_split CHR ''/'' s))"

text \<open>\<open>os.path.join\<close> with two arguments (POSIX).\<close>

definition os_path_join :: "string \<Rightarrow> string \<Rightarrow> string" where
  "os_path_join a b =
     (if startswith b ''/'' then b
      else if a = [] \<or> endswith a ''/'' then a @ b
      else a @ ''/'' @ b)"

section \<open>Configuration and environment\<close>

text \<open>
  A Python float as far as the hour limit needs it: \<open>float(a)\<close> may be finite, infinite
  or not a number. Rounding is not modelled: finite values are rationals.
\<close>

datatype pyfloat = Finite rat | PosInf | NegInf | NaN

text \<open>\<open>elapsed_hours >= max_hours\<close>; the elapsed time is always finite.\<close>

fun hours_ge :: "rat \<Rightarrow> pyfloat \<Rightarrow> bool" where
  "hours_ge e (Finite m) = (m \<le> e)"
| "hours_ge e PosInf = False"
| "hours_ge e NegInf = True"
| "hours_ge e NaN = False"

text \<open>
  What \<open>subprocess.call\<close> does with the job command: either the child cannot be started
  and the call raises in the worker, or the child runs to its end and has written its
  standard output and standard error. The return code is ignored by both scripts.
  Whatever else the job does to the filesystem is outside the model.
\<close>

datatype launch = CannotLaunch error | Completed string string

text \<open>
  Everything the scripts take from outside themselves: the built-in conversions
  \<open>int\<close> and \<open>float\<close> (\<open>None\<close> is \<open>ValueError\<close>), \<open>glob.glob\<close>, \<open>re.search\<close>
  (\<open>None\<close> is \<open>re.error\<close>), the job command, the clock (the \<open>k\<close>-th reading of
  \<open>datetime.now()\<close>, in seconds) and the worker's identifier.
\<close>

record env =
  py_int :: "string \<Rightarrow> int option"
  py_float :: "string \<Rightarrow> pyfloat option"
  glob :: "filesystem \<Rightarrow> path \<Rightarrow> string \<Rightarrow> string list"
  re_search :: "string \<Rightarrow> string \<Rightarrow> bool option"
  call :: "string list \<Rightarrow> path \<Rightarrow> launch"
  now :: "nat \<Rightarrow> rat"
  worker_id :: string

text \<open>
  The module-level variables set while the command line is read. The regex script
  (\<open>src/worker.py\<close>) has \<open>basepaths\<close> and no \<open>label\<close>; the glob script
  (\<open>src/src/worker.py\<close>) has \<open>label\<close> and no \<open>basepaths\<close>.
\<close>

record config =
  basepaths :: "string list"
  patterns :: "string list"
  cmd :: "string list"
  max_jobs :: int
  max_hours :: pyfloat
  label :: string

definition sys_maxsize :: int where
  "sys_maxsize = 2 ^ 63 - 1"

section \<open>Reading the command line: the glob script (src/src/worker.py, lines 64-107)\<close>

definition glob_defaults :: config where
  "glob_defaults =
     \<lparr>basepaths = [], patterns = [], cmd = [], max_jobs = sys_maxsize,
      max_hours = PosInf, label = ''worker''\<rparr>"

definition glob_set_max_jobs :: "env \<Rightarrow> string \<Rightarrow> string \<Rightarrow> config \<Rightarrow> error + config" where
  "glob_set_max_jobs env opt a c =
     (if str_contains ''--maxjobs'' opt then
        (case py_int env a of
           None \<Rightarrow> Inl ValueError
         | Some n \<Rightarrow> Inr (c\<lparr>max_jobs := n\<rparr>))
      else Inr c)"

definition glob_set_max_hours :: "env \<Rightarrow> string \<Rightarrow> string \<Rightarrow> config \<Rightarrow> error + config" where
  "glob_set_max_hours env opt a c =
     (if str_contains ''--maxhours'' opt then
        (case py_float env a of
           None \<Rightarrow> Inl ValueError
         | Some h \<Rightarrow> Inr (c\<lparr>max_hours := h\<rparr>))
      else Inr c)"

text \<open>One round of \<open>for o, a in options\<close>: the seven \<open>if\<close> statements in their order.\<close>

definition glob_option :: "env \<Rightarrow> string \<times> string \<Rightarrow> config \<Rightarrow> (out list \<times> ctl) + config" where
  "glob_option env oa c =
     (case oa of (opt, a) \<Rightarrow>
        if opt = ''-v'' \<or> opt = ''--version'' then Inl ([Stdout Version], Exit 0)
        else if opt = ''-h'' \<or> opt = ''--help'' then Inl ([Stdout Version, Stdout Usage], Exit 0)
        else
          let c1 = (if opt = ''-p'' \<or> opt = ''--pattern''
                    then c\<lparr>patterns := patterns c @ [a]\<rparr> else c);
              c2 = (if opt = ''-c'' \<or> opt = ''--cmd''
                    then c1\<lparr>cmd := cmd c1 @ str_split CHR '' '' a\<rparr> else c1)
          in (case glob_set_max_jobs env opt a c2 of
                Inl e \<Rightarrow> Inl ([], Raise e)
              | Inr c3 \<Rightarrow>
                  (case glob_set_max_hours env opt a c3 of
                     Inl e \<Rightarrow> Inl ([], Raise e)
                   | Inr c4 \<Rightarrow>
                       Inr (if str_contains ''--label'' opt then c4\<lparr>label := a\<rparr> else c4))))"

fun glob_options :: "env \<Rightarrow> opts \<Rightarrow> config \<Rightarrow> (out list \<times> ctl) + config" where
  "glob_options env [] c = Inr c"
| "glob_options env (oa # rest) c =
     (case glob_option env oa c of
        Inl h \<Rightarrow> Inl h
      | Inr c' \<Rightarrow> glob_options env rest c')"

definition glob_longopts :: "string list" where
  "glob_longopts =
     [''version'', ''help'', ''pattern='', ''cmd='', ''maxjobs='', ''maxhours='', ''label='']"

text \<open>
  The whole start-up of the glob script up to line 107. A left result ends the process
  before any work: what was printed, and how the process ended.
\<close>

definition glob_parse :: "env \<Rightarrow> string list \<Rightarrow> (out list \<times> ctl) + config" where
  "glob_parse env argv =
     (case getopt argv ''vh:p:c:'' glob_longopts of
        Inl e \<Rightarrow> Inl ([], Raise e)
      | Inr (options, arguments) \<Rightarrow>
          (case glob_options env options glob_defaults of
             Inl h \<Rightarrow> Inl h
           | Inr c \<Rightarrow>
               if \<exists>arg \<in> set arguments. py_int env arg = None then Inl ([Stderr Usage], Exit 1)
               else if patterns c = [] then Inl ([Stdout MustProvidePattern], Exit 1)
               else if cmd c = [] then Inl ([Stdout MustProvideCommand], Exit 1)
               else Inr c))"

section \<open>Reading the command line: the regex script (src/worker.py, lines 42-87)\<close>

definition regex_defaults :: config where
  "regex_defaults =
     \<lparr>basepaths = [], patterns = [], cmd = [], max_jobs = sys_maxsize,
      max_hours = Finite (of_int sys_maxsize), label = ''worker''\<rparr>"

text \<open>
  One round of the loop in \<open>parse()\<close>. The last two \<open>if\<close> statements assign the option's
  text to the local names \<open>maxjobs\<close> and \<open>maxhours\<close>, which nothing reads: the module
  variables \<open>max_jobs\<close> and \<open>max_hours\<close> keep their initial values.
\<close>

definition regex_option :: "string \<times> string \<Rightarrow> config \<Rightarrow> (out list \<times> ctl) + config" where
  "regex_option oa c =
     (case oa of (opt, a) \<Rightarrow>
        if opt = ''-v'' \<or> opt = ''--version'' then Inl ([Stdout Version], Exit 0)
        else if opt = ''-h'' \<or> opt = ''--help'' then Inl ([Stdout Usage], Exit 0)
        else
          let c1 = (if opt = ''-b'' \<or> opt = ''--basepath''
                    then c\<lparr>basepaths := basepaths c @ [a]\<rparr> else c);
              c2 = (if opt = ''-p'' \<or> opt = ''--pattern''
                    then c1\<lparr>patterns := patterns c1 @ [a]\<rparr> else c1);
              c3 = (if opt = ''-c'' \<or> opt = ''--cmd''
                    then c2\<lparr>cmd := cmd c2 @ str_split CHR '' '' a\<rparr> else c2);
              maxjobs = (if str_contains ''--maxjobs'' opt then Some a else None);
              maxhours = (if str_contains ''--maxhours'' opt then Some a else None)
          in Inr c3)"

fun regex_options :: "opts \<Rightarrow> config \<Rightarrow> (out list \<times> ctl) + config" where
  "regex_options [] c = Inr c"
| "regex_options (oa # rest) c =
     (case regex_option oa c of
        Inl h \<Rightarrow> Inl h
      | Inr c' \<Rightarrow> regex_options rest c')"

definition regex_longopts :: "string list" where
  "regex_longopts =
     [''version'', ''help'', ''basepath='', ''pattern='', ''cmd='', ''maxjobs='', ''maxhours='']"

definition parse :: "env \<Rightarrow> string list \<Rightarrow> (out list \<times> ctl) + config" where
  "parse env argv =
     (case getopt argv ''vhb:p:c:'' regex_longopts of
        Inl e \<Rightarrow> Inl ([], Raise e)
      | Inr (options, arguments) \<Rightarrow>
          (case regex_options options regex_defaults of
             Inl h \<Rightarrow> Inl h
           | Inr c \<Rightarrow>
               if \<exists>arg \<in> set arguments. py_int env arg = None then Inl ([Stderr Usage], Exit 1)
               else if basepaths c = [] then Inl ([], Raise RuntimeError)
               else if patterns c = [] then Inl ([], Raise RuntimeError)
               else if cmd c = [] then Inl ([], Raise RuntimeError)
               else Inr c))"

section \<open>The worker's state and its system calls\<close>

text \<open>
  The trace records what the worker does that can be seen from outside: its log lines,
  the answer of each lock-marker test on a candidate directory (\<open>Observed d b\<close>: the
  marker of \<open>d\<close> exists, or not), and each launch of the job command.
\<close>

datatype event =
    WorkerId string
  | WorkingDirectory path
  | Searching nat
  | SearchingPattern nat string
  | SearchingBasepath nat string string
  | NotFolder string
  | Observed string bool
  | LockExists string
  | Acquired string
  | CouldNotLock string
  | Called "string list" path
  | Progress int rat
  | ReachedJobs int
  | ReachedHours pyfloat
  | Done

record state =
  files :: filesystem
  cwd :: path
  ticks :: nat
  start_time :: rat
  keep_looping :: bool
  processed_jobs :: int
  trace :: "event list"

definition emit :: "event \<Rightarrow> state \<Rightarrow> state" where
  "emit e st = st\<lparr>trace := trace st @ [e]\<rparr>"

definition node_at :: "state \<Rightarrow> string \<Rightarrow> node option" where
  "node_at st s = (if s = [] then None else lookup (files st) (resolve (cwd st) s))"

definition os_path_isdir :: "state \<Rightarrow> string \<Rightarrow> bool" where
  "os_path_isdir st s = (node_at st s = Some Dir)"

definition os_path_isfile :: "state \<Rightarrow> string \<Rightarrow> bool" where
  "os_path_isfile st s = (case node_at st s of Some (File c) \<Rightarrow> True | _ \<Rightarrow> False)"

definition os_listdir :: "state \<Rightarrow> string \<Rightarrow> error + string list" where
  "os_listdir st s =
     (case node_at st s of
        None \<Rightarrow> Inl FileNotFoundError
      | Some (File c) \<Rightarrow> Inl NotADirectoryError
      | Some Dir \<Rightarrow> Inr (children (files st) (resolve (cwd st) s)))"

definition os_chdir :: "state \<Rightarrow> string \<Rightarrow> error + state" where
  "os_chdir st s =
     (case node_at st s of
        None \<Rightarrow> Inl FileNotFoundError
      | Some (File c) \<Rightarrow> Inl NotADirectoryError
      | Some Dir \<Rightarrow> Inr (st\<lparr>cwd := resolve (cwd st) s\<rparr>))"

text \<open>
  \<open>os.chdir\<close> back to the directory that \<open>os.getcwd()\<close> returned at start-up, kept here
  in resolved form.
\<close>

definition chdir_path :: "state \<Rightarrow> path \<Rightarrow> error + state" where
  "chdir_path st p =
     (case lookup (files st) p of
        None \<Rightarrow> Inl FileNotFoundError
      | Some (File c) \<Rightarrow> Inl NotADirectoryError
      | Some Dir \<Rightarrow> Inr (st\<lparr>cwd := p\<rparr>))"

text \<open>\<open>open(name, 'x')\<close>, the content being what the block writes before the file is closed.\<close>

definition open_x :: "state \<Rightarrow> string \<Rightarrow> string \<Rightarrow> error + state" where
  "open_x st s content =
     (if s = [] then Inl FileNotFoundError
      else (case create_x (files st) (resolve (cwd st) s) content of
              Inl e \<Rightarrow> Inl e
            | Inr fs \<Rightarrow> Inr (st\<lparr>files := fs\<rparr>)))"

text \<open>\<open>open(name, 'w')\<close>: the open file is identified by the path it was resolved to.\<close>

definition open_w :: "state \<Rightarrow> string \<Rightarrow> error + (path \<times> state)" where
  "open_w st s =
     (if s = [] then Inl FileNotFoundError
      else (case create_w (files st) (resolve (cwd st) s) of
              Inl e \<Rightarrow> Inl e
            | Inr fs \<Rightarrow> Inr (resolve (cwd st) s, st\<lparr>files := fs\<rparr>)))"

text \<open>
  \<open>subprocess.call(cmd, stdout = g, stderr = h)\<close> in the current working directory: the
  child's output ends up in the two open files.
\<close>

definition subprocess_call :: "env \<Rightarrow> string list \<Rightarrow> path \<Rightarrow> path \<Rightarrow> state \<Rightarrow> error + state" where
  "subprocess_call env argv g h st =
     (case call env argv (cwd st) of
        CannotLaunch e \<Rightarrow> Inl e
      | Completed sout serr \<Rightarrow>
          Inr (emit (Called argv (cwd st))
                 (st\<lparr>files := write_file (write_file (files st) g sout) h serr\<rparr>)))"

section \<open>The main loop of the glob script (src/src/worker.py, lines 129-208)\<close>

definition glob_lockfile :: "config \<Rightarrow> string \<Rightarrow> string" where
  "glob_lockfile cfg subdir = subdir @ ''/'' @ label cfg @ ''.lock''"

text \<open>Lines 172-178: the claim. \<open>Inr True\<close> is \<open>acquired_lock = True\<close>.\<close>

definition glob_claim :: "env \<Rightarrow> string \<Rightarrow> state \<Rightarrow> error + (bool \<times> state)" where
  "glob_claim env lockfile st =
     (case open_x st lockfile (''Reserved by worker: '' @ worker_id env @ [CHR 0x0A]) of
        Inr st' \<Rightarrow> Inr (True, st')
      | Inl e \<Rightarrow>
          if e = FileExistsError then Inr (False, emit (CouldNotLock lockfile) st)
          else Inl e)"

text \<open>Lines 180-194: the job, run by the worker that holds the lock.\<close>

definition glob_run_job :: "env \<Rightarrow> config \<Rightarrow> path \<Rightarrow> string \<Rightarrow> state \<Rightarrow> ctl \<times> state" where
  "glob_run_job env cfg home subdir st =
     (let st1 = emit (Acquired subdir) st in
      case os_chdir st1 subdir of
        Inl e \<Rightarrow> (Raise e, st1)
      | Inr st2 \<Rightarrow>
          (case open_w st2 (label cfg @ ''.out'') of
             Inl e \<Rightarrow> (Raise e, st2)
           | Inr (g, st3) \<Rightarrow>
               (case open_w st3 (label cfg @ ''.err'') of
                  Inl e \<Rightarrow> (Raise e, st3)
                | Inr (h, st4) \<Rightarrow>
                    (case subprocess_call env (cmd cfg) g h st4 of
                       Inl e \<Rightarrow> (Raise e, st4)
                     | Inr st5 \<Rightarrow>
                         (let st6 = st5\<lparr>processed_jobs := processed_jobs st5 + 1\<rparr> in
                          case chdir_path st6 home of
                            Inl e \<Rightarrow> (Raise e, st6)
                          | Inr st7 \<Rightarrow> (Next, st7))))))"

text \<open>Lines 196-206: the stop conditions; \<open>exit(0)\<close> ends the process.\<close>

definition glob_evaluate :: "env \<Rightarrow> config \<Rightarrow> state \<Rightarrow> ctl \<times> state" where
  "glob_evaluate env cfg st =
     (let elapsed_hours = (now env (ticks st) - start_time st) / 3600;
          st1 = emit (Progress (processed_jobs st) elapsed_hours) (st\<lparr>ticks := Suc (ticks st)\<rparr>)
      in if max_jobs cfg \<le> processed_jobs st1 then (Exit 0, emit (ReachedJobs (max_jobs cfg)) st1)
         else if hours_ge elapsed_hours (max_hours cfg)
              then (Exit 0, emit (ReachedHours (max_hours cfg)) st1)
         else (Next, st1))"

text \<open>Lines 151-206: the body of \<open>for entry in glob.glob(pattern)\<close>.\<close>

definition glob_candidate :: "env \<Rightarrow> config \<Rightarrow> path \<Rightarrow> string \<Rightarrow> state \<Rightarrow> ctl \<times> state" where
  "glob_candidate env cfg home entry st =
     (if \<not> os_path_isdir st entry then (Next, emit (NotFolder entry) st)
      else if os_path_isfile st (glob_lockfile cfg entry)
           then (Next, emit (LockExists entry) (emit (Observed entry True) st))
      else
        (let st1 = (emit (Observed entry False) st)\<lparr>keep_looping := True\<rparr> in
         case glob_claim env (glob_lockfile cfg entry) st1 of
           Inl e \<Rightarrow> (Raise e, st1)
         | Inr (acquired_lock, st2) \<Rightarrow>
             if acquired_lock then
               (case glob_run_job env cfg home entry st2 of
                  (Next, st3) \<Rightarrow> glob_evaluate env cfg st3
                | (c, st3) \<Rightarrow> (c, st3))
             else glob_evaluate env cfg st2))"

fun glob_entries :: "env \<Rightarrow> config \<Rightarrow> path \<Rightarrow> string list \<Rightarrow> state \<Rightarrow> ctl \<times> state" where
  "glob_entries env cfg home [] st = (Next, st)"
| "glob_entries env cfg home (entry # rest) st =
     (case glob_candidate env cfg home entry st of
        (Next, st') \<Rightarrow> glob_entries env cfg home rest st'
      | (c, st') \<Rightarrow> (c, st'))"

text \<open>Lines 145-150: \<open>for i in range(L)\<close>, the pattern expanded when its turn comes.\<close>

fun glob_patterns :: "env \<Rightarrow> config \<Rightarrow> path \<Rightarrow> nat \<Rightarrow> string list \<Rightarrow> state \<Rightarrow> ctl \<times> state" where
  "glob_patterns env cfg home i [] st = (Next, st)"
| "glob_patterns env cfg home i (pattern # rest) st =
     (let st1 = emit (SearchingPattern i pattern) st in
      case glob_entries env cfg home (glob env (files st1) (cwd st1) pattern) st1 of
        (Next, st2) \<Rightarrow> glob_patterns env cfg home (Suc i) rest st2
      | (c, st2) \<Rightarrow> (c, st2))"

text \<open>Lines 139-206: one pass, the body of \<open>while keep_looping\<close>.\<close>

definition glob_pass :: "env \<Rightarrow> config \<Rightarrow> path \<Rightarrow> state \<Rightarrow> ctl \<times> state" where
  "glob_pass env cfg home st =
     glob_patterns env cfg home 0 (patterns cfg)
       (emit (Searching (length (patterns cfg))) (st\<lparr>keep_looping := False\<rparr>))"

text \<open>
  The \<open>while\<close> loop may go on for ever, so it takes fuel: one unit per pass. \<open>None\<close> is
  a run that is still going when the fuel is used up. Falling off the end of the script
  ends the process with status 0.
\<close>

fun glob_main_loop :: "nat \<Rightarrow> env \<Rightarrow> config \<Rightarrow> path \<Rightarrow> state \<Rightarrow> (ctl \<times> state) option" where
  "glob_main_loop 0 env cfg home st = None"
| "glob_main_loop (Suc n) env cfg home st =
     (if keep_looping st then
        (case glob_pass env cfg home st of
           (Next, st') \<Rightarrow> glob_main_loop n env cfg home st'
         | (c, st') \<Rightarrow> Some (c, st'))
      else Some (Exit 0, emit Done st))"

definition initial_state :: "filesystem \<Rightarrow> path \<Rightarrow> state" where
  "initial_state fs wd =
     \<lparr>files = fs, cwd = wd, ticks = 0, start_time = 0, keep_looping = True,
      processed_jobs = 0, trace = []\<rparr>"

text \<open>Lines 110-135: the clock is read once, the identifier and the directory are logged.\<close>

definition started :: "env \<Rightarrow> state \<Rightarrow> state" where
  "started env st =
     st\<lparr>start_time := now env 0, ticks := 1,
        trace := [WorkerId (worker_id env), WorkingDirectory (cwd st)]\<rparr>"

text \<open>
  The glob script from its command line to the end of the process: what start-up
  printed, how the process ended, and the state it left.
\<close>

definition glob_worker ::
  "nat \<Rightarrow> env \<Rightarrow> string list \<Rightarrow> filesystem \<Rightarrow> path \<Rightarrow> (out list \<times> ctl \<times> state) option" where
  "glob_worker fuel env argv fs wd =
     (case glob_parse env argv of
        Inl (outs, c) \<Rightarrow> Some (outs, c, initial_state fs wd)
      | Inr cfg \<Rightarrow>
          (case glob_main_loop fuel env cfg wd (started env (initial_state fs wd)) of
             None \<Rightarrow> None
           | Some (c, st) \<Rightarrow> Some ([], c, st)))"

section \<open>The main loop of the regex script (src/worker.py, lines 108-191)\<close>

definition regex_lockfile :: "string \<Rightarrow> string \<Rightarrow> string" where
  "regex_lockfile basepath subdir = os_path_join basepath (subdir @ ''/'' @ ''worker.lock'')"

text \<open>Lines 158-172: the body of \<open>with open(lockfile, 'x') as f\<close>.\<close>

definition regex_job :: "env \<Rightarrow> config \<Rightarrow> string \<Rightarrow> string \<Rightarrow> state \<Rightarrow> ctl \<times> state" where
  "regex_job env cfg basepath subdir st =
     (let st1 = emit (Acquired subdir) st;
          path = os_path_join basepath subdir
      in case os_chdir st1 path of
           Inl e \<Rightarrow> (Raise e, st1)
         | Inr st2 \<Rightarrow>
             (case open_w st2 (os_path_join path ''worker.out'') of
                Inl e \<Rightarrow> (Raise e, st2)
              | Inr (g, st3) \<Rightarrow>
                  (case open_w st3 (os_path_join path ''worker.err'') of
                     Inl e \<Rightarrow> (Raise e, st3)
                   | Inr (h, st4) \<Rightarrow>
                       (case subprocess_call env (cmd cfg) g h st4 of
                          Inl e \<Rightarrow> (Raise e, st4)
                        | Inr st5 \<Rightarrow>
                            (Next, st5\<lparr>processed_jobs := processed_jobs st5 + 1\<rparr>)))))"

text \<open>
  Lines 156-177: \<open>try\<close> / \<open>except FileExistsError\<close> / \<open>finally\<close>. The handler takes a
  \<open>FileExistsError\<close> from anywhere in the block; the \<open>finally\<close> clause runs on every
  way out, and an error of its own replaces the one on its way up.
\<close>

definition regex_try :: "env \<Rightarrow> config \<Rightarrow> path \<Rightarrow> string \<Rightarrow> string \<Rightarrow> state \<Rightarrow> ctl \<times> state" where
  "regex_try env cfg homepath basepath subdir st =
     (let lockfile = regex_lockfile basepath subdir;
          (c, st1) =
            (case open_x st lockfile (''Reserved by worker: '' @ worker_id env) of
               Inl e \<Rightarrow> (Raise e, st)
             | Inr st' \<Rightarrow> regex_job env cfg basepath subdir st');
          (c', st2) =
            (if c = Raise FileExistsError then (Next, emit (CouldNotLock lockfile) st1)
             else (c, st1))
      in case chdir_path st2 homepath of
           Inl e \<Rightarrow> (Raise e, st2)
         | Inr st3 \<Rightarrow> (c', st3))"

text \<open>Lines 179-189: the stop conditions; \<open>break\<close> leaves the loop over the listing.\<close>

definition regex_evaluate :: "env \<Rightarrow> config \<Rightarrow> state \<Rightarrow> ctl \<times> state" where
  "regex_evaluate env cfg st =
     (let elapsed_hours = (now env (ticks st) - start_time st) / 3600;
          st1 = emit (Progress (processed_jobs st) elapsed_hours) (st\<lparr>ticks := Suc (ticks st)\<rparr>)
      in if max_jobs cfg \<le> processed_jobs st1 then (Break, emit (ReachedJobs (max_jobs cfg)) st1)
         else if hours_ge elapsed_hours (max_hours cfg)
              then (Break, emit (ReachedHours (max_hours cfg)) st1)
         else (Next, st1))"

text \<open>
  Lines 134-189: the body of \<open>for subdir in os.listdir(basepath)\<close>. The directory test
  is made on the bare entry name, which the system resolves against the working
  directory; the lock marker is looked for under the base path.
\<close>

definition regex_candidate ::
  "env \<Rightarrow> config \<Rightarrow> path \<Rightarrow> string \<Rightarrow> string \<Rightarrow> string \<Rightarrow> state \<Rightarrow> ctl \<times> state" where
  "regex_candidate env cfg homepath basepath pattern subdir st =
     (if \<not> os_path_isdir st subdir then (Next, st)
      else (case re_search env pattern subdir of
              None \<Rightarrow> (Raise ReError, st)
            | Some False \<Rightarrow> (Next, st)
            | Some True \<Rightarrow>
                if os_path_isfile st (regex_lockfile basepath subdir)
                then (Next, emit (LockExists subdir) (emit (Observed subdir True) st))
                else
                  (let st1 = (emit (Observed subdir False) st)\<lparr>keep_looping := True\<rparr> in
                   case regex_try env cfg homepath basepath subdir st1 of
                     (Next, st2) \<Rightarrow> regex_evaluate env cfg st2
                   | (c, st2) \<Rightarrow> (c, st2))))"

fun regex_subdirs ::
  "env \<Rightarrow> config \<Rightarrow> path \<Rightarrow> string \<Rightarrow> string \<Rightarrow> string list \<Rightarrow> state \<Rightarrow> ctl \<times> state" where
  "regex_subdirs env cfg homepath basepath pattern [] st = (Next, st)"
| "regex_subdirs env cfg homepath basepath pattern (subdir # rest) st =
     (case regex_candidate env cfg homepath basepath pattern subdir st of
        (Next, st') \<Rightarrow> regex_subdirs env cfg homepath basepath pattern rest st'
      | (Break, st') \<Rightarrow> (Next, st')
      | (c, st') \<Rightarrow> (c, st'))"

text \<open>
  Lines 127-133: \<open>for i in range(L)\<close> over the base paths and their patterns, which have
  the same length \<open>L\<close> once line 113 has been passed.
\<close>

fun regex_basepaths ::
  "env \<Rightarrow> config \<Rightarrow> path \<Rightarrow> nat \<Rightarrow> (string \<times> string) list \<Rightarrow> state \<Rightarrow> ctl \<times> state" where
  "regex_basepaths env cfg homepath i [] st = (Next, st)"
| "regex_basepaths env cfg homepath i ((basepath, pattern) # rest) st =
     (let st1 = emit (SearchingBasepath i basepath pattern) st in
      case os_listdir st1 basepath of
        Inl e \<Rightarrow> (Raise e, st1)
      | Inr names \<Rightarrow>
          (case regex_subdirs env cfg homepath basepath pattern names st1 of
             (Next, st2) \<Rightarrow> regex_basepaths env cfg homepath (Suc i) rest st2
           | (c, st2) \<Rightarrow> (c, st2)))"

definition regex_pass :: "env \<Rightarrow> config \<Rightarrow> path \<Rightarrow> state \<Rightarrow> ctl \<times> state" where
  "regex_pass env cfg homepath st =
     regex_basepaths env cfg homepath 0 (zip (basepaths cfg) (patterns cfg))
       (emit (Searching (length (basepaths cfg))) (st\<lparr>keep_looping := False\<rparr>))"

fun regex_main_loop :: "nat \<Rightarrow> env \<Rightarrow> config \<Rightarrow> path \<Rightarrow> state \<Rightarrow> (ctl \<times> state) option" where
  "regex_main_loop 0 env cfg homepath st = None"
| "regex_main_loop (Suc n) env cfg homepath st =
     (if keep_looping st then
        (case regex_pass env cfg homepath st of
           (Next, st') \<Rightarrow> regex_main_loop n env cfg homepath st'
         | (c, st') \<Rightarrow> Some (c, st'))
      else Some (Exit 0, emit Done st))"

text \<open>The regex script from its command line to the end of the process.\<close>

definition regex_worker ::
  "nat \<Rightarrow> env \<Rightarrow> string list \<Rightarrow> filesystem \<Rightarrow> path \<Rightarrow> (out list \<times> ctl \<times> state) option" where
  "regex_worker fuel env argv fs wd =
     (case parse env argv of
        Inl (outs, c) \<Rightarrow> Some (outs, c, initial_state fs wd)
      | Inr cfg \<Rightarrow>
          (let st = started env (initial_state fs wd) in
           if length (basepaths cfg) \<noteq> length (patterns cfg) then Some ([], Raise RuntimeError, st)
           else (case regex_main_loop fuel env cfg wd st of
                   None \<Rightarrow> None
                 | Some (c, st') \<Rightarrow> Some ([], c, st'))))"

section \<open>Workers racing for one job directory\<close>

text \<open>
  Several workers run the glob script against one shared filesystem and come to the same
  candidate directory. Each worker takes the steps of the loop body one at a time: the
  tests of lines 152-163 (\<open>Checking\<close>), the exclusive creation of the lock marker of
  lines 172-178 (\<open>Claiming\<close>), the job of lines 180-194 (\<open>Running\<close>). Between any two
  steps of one worker the others may take any number of theirs. A step is one system
  call on the shared filesystem, or, for the job, a run of calls none of which touches a
  name that exists already except the job's own output files. A worker's own state keeps
  everything but the files, which it reads from the shared filesystem at each step.
\<close>

datatype stage =
    Checking | Claiming | Running | Finished | Aborted error | Lost | Skipped | Failed error

record racer =
  renv :: env
  stage :: stage
  own :: state

definition racer_step :: "config \<Rightarrow> path \<Rightarrow> string \<Rightarrow> filesystem \<Rightarrow> racer \<Rightarrow> filesystem \<times> racer" where
  "racer_step cfg home entry fs r =
     (let st = (own r)\<lparr>files := fs\<rparr> in
      case stage r of
        Checking \<Rightarrow>
          if \<not> os_path_isdir st entry
          then (fs, r\<lparr>stage := Skipped, own := emit (NotFolder entry) st\<rparr>)
          else if os_path_isfile st (glob_lockfile cfg entry)
          then (fs, r\<lparr>stage := Skipped,
                      own := emit (LockExists entry) (emit (Observed entry True) st)\<rparr>)
          else (fs, r\<lparr>stage := Claiming,
                      own := (emit (Observed entry False) st)\<lparr>keep_looping := True\<rparr>\<rparr>)
      | Claiming \<Rightarrow>
          (case glob_claim (renv r) (glob_lockfile cfg entry) st of
             Inl e \<Rightarrow> (fs, r\<lparr>stage := Failed e, own := st\<rparr>)
           | Inr (acquired_lock, st') \<Rightarrow>
               (files st', r\<lparr>stage := (if acquired_lock then Running else Lost), own := st'\<rparr>))
      | Running \<Rightarrow>
          (case glob_run_job (renv r) cfg home entry st of
             (Raise e, st') \<Rightarrow> (files st', r\<lparr>stage := Aborted e, own := st'\<rparr>)
           | (c, st') \<Rightarrow> (files st', r\<lparr>stage := Finished, own := st'\<rparr>))
      | _ \<Rightarrow> (fs, r))"

record race =
  shared :: filesystem
  racers :: "racer list"

definition race_step :: "config \<Rightarrow> path \<Rightarrow> string \<Rightarrow> nat \<Rightarrow> race \<Rightarrow> race" where
  "race_step cfg home entry i s =
     (if i < length (racers s) then
        (case racer_step cfg home entry (shared s) (racers s ! i) of
           (fs', r') \<Rightarrow> \<lparr>shared = fs', racers = (racers s)[i := r']\<rparr>)
      else s)"

fun run_schedule :: "config \<Rightarrow> path \<Rightarrow> string \<Rightarrow> nat list \<Rightarrow> race \<Rightarrow> race" where
  "run_schedule cfg home entry [] s = s"
| "run_schedule cfg home entry (i # sched) s =
     run_schedule cfg home entry sched (race_step cfg home entry i s)"





section \<open>A concrete environment\<close>

text \<open>
  Small stand-ins for the library functions, used to run the scripts on concrete inputs:
  decimal integers for \<open>int\<close>, integers and \<open>inf\<close> for \<open>float\<close>, a glob that knows a
  star at the end of the last path component, literal substring search for \<open>re.search\<close>,
  and a job command that succeeds as \<open>true\<close> and \<open>echo done\<close> and cannot be launched
  under any other name.
\<close>

fun dec_nat :: "nat \<Rightarrow> string \<Rightarrow> nat option" where
  "dec_nat acc [] = Some acc"
| "dec_nat acc (c # cs) =
     (if c \<in> set ''0123456789'' then dec_nat (10 * acc + (of_char c - 48)) cs else None)"

definition dec_int :: "string \<Rightarrow> int option" where
  "dec_int s =
     (case s of
        [] \<Rightarrow> None
      | c # cs \<Rightarrow>
          if c = CHR ''-'' then (if cs = [] then None else map_option (\<lambda>n. - int n) (dec_nat 0 cs))
          else map_option int (dec_nat 0 s))"

definition dec_float :: "string \<Rightarrow> pyfloat option" where
  "dec_float s =
     (if s = ''inf'' then Some PosInf else map_option (\<lambda>i. Finite (of_int i)) (dec_int s))"

definition glob_star :: "filesystem \<Rightarrow> path \<Rightarrow> string \<Rightarrow> string list" where
  "glob_star fs wd pattern =
     (let b = rev (takeWhile (\<lambda>c. c \<noteq> CHR ''/'') (rev pattern));
          d = take (length pattern - length b) pattern
      in if b \<noteq> [] \<and> last b = CHR ''*''
         then map (\<lambda>n. d @ n)
                (filter (\<lambda>n. startswith n (butlast b) \<and> (butlast b \<noteq> [] \<or> \<not> startswith n ''.''))
                   (children fs (resolve wd d)))
         else if pattern \<noteq> [] \<and> lookup fs (resolve wd pattern) \<noteq> None then [pattern]
         else [])"

definition search_literal :: "string \<Rightarrow> string \<Rightarrow> bool option" where
  "search_literal pattern s = Some (str_contains s pattern)"

definition sh :: "string list \<Rightarrow> path \<Rightarrow> launch" where
  "sh argv wd =
     (if argv = [''true''] then Completed [] []
      else if argv = [''echo'', ''done''] then Completed ''done'' []
      else CannotLaunch FileNotFoundError)"

definition env0 :: env where
  "env0 =
     \<lparr>py_int = dec_int, py_float = dec_float, glob = glob_star, re_search = search_literal,
      call = sh, now = (\<lambda>k. 0), worker_id = ''w1''\<rparr>"

text \<open>A home directory with five job directories, none of them claimed.\<close>

definition fs5 :: filesystem where
  "fs5 =
     [([''home''], Dir), ([''home'', ''job1''], Dir), ([''home'', ''job2''], Dir),
      ([''home'', ''job3''], Dir), ([''home'', ''job4''], Dir), ([''home'', ''job5''], Dir)]"


definition glob_cfg_true :: config where
  "glob_cfg_true =
     \<lparr>basepaths = [], patterns = [''job*''], cmd = [''true''],
      max_jobs = sys_maxsize, max_hours = PosInf, label = ''worker''\<rparr>"

definition regex_cfg_true :: config where
  "regex_cfg_true =
     \<lparr>basepaths = [''/home''], patterns = [''job''], cmd = [''true''],
      max_jobs = sys_maxsize, max_hours = Finite (of_int sys_maxsize), label = ''worker''\<rparr>"


text \<open>A job directory under \<open>/jobs\<close>, the worker started in \<open>/home\<close>.\<close>

definition fs_jobs :: filesystem where
  "fs_jobs = [([''home''], Dir), ([''jobs''], Dir), ([''jobs'', ''job1''], Dir)]"

text \<open>A job directory in which the name of the output file is taken by a directory.\<close>

definition fs_blocked :: filesystem where
  "fs_blocked =
     [([''home''], Dir), ([''home'', ''job1''], Dir), ([''home'', ''job1'', ''worker.out''], Dir)]"

text \<open>A command that cannot be launched, and the worker just started among the five jobs.\<close>

definition glob_cfg_nosuch :: config where
  "glob_cfg_nosuch = glob_cfg_true\<lparr>cmd := [''nosuch'']\<rparr>"

definition regex_cfg_nosuch :: config where
  "regex_cfg_nosuch = regex_cfg_true\<lparr>cmd := [''nosuch'']\<rparr>"

definition st_open :: state where
  "st_open = started env0 (initial_state fs5 [''home''])"

text \<open>Two workers at the first of the five jobs.\<close>

definition duel :: "racer list" where
  "duel =
     [\<lparr>renv = env0, stage = Checking, own = st_open\<rparr>,
      \<lparr>renv = env0\<lparr>worker_id := ''w2''\<rparr>, stage = Checking, own = st_open\<rparr>]"

text \<open>Two command lines whose command has two spaces in a row, as start-up leaves them.\<close>

definition glob_cfg_echo :: config where
  "glob_cfg_echo =
     \<lparr>basepaths = [], patterns = [''job*''], cmd = [''echo'', [], ''done''],
      max_jobs = sys_maxsize, max_hours = PosInf, label = ''worker''\<rparr>"

definition regex_cfg_echo :: config where
  "regex_cfg_echo =
     \<lparr>basepaths = [''/home''], patterns = [''job''], cmd = [''echo'', [], ''done''],
      max_jobs = sys_maxsize, max_hours = Finite (of_int sys_maxsize), label = ''worker''\<rparr>"

section \<open>Notions used in the statements and proofs\<close>

text \<open>The values of the \<open>-c\<close> and \<open>--cmd\<close> options, in their order on the command line.\<close>

definition cmd_values :: "opts \<Rightarrow> string list" where
  "cmd_values options = map snd (filter (\<lambda>(opt, a). opt = ''-c'' \<or> opt = ''--cmd'') options)"

text \<open>Every command launched so far was launched with the command vector of the configuration.\<close>

definition only_cmd :: "config \<Rightarrow> state \<Rightarrow> bool" where
  "only_cmd cfg st = (\<forall>argv wd. Called argv wd \<in> set (trace st) \<longrightarrow> argv = cmd cfg)"

text \<open>
  Neither script removes anything: a later filesystem has every name of an earlier one,
  directories stay directories and files stay files (their content may change).
\<close>

definition fs_le :: "filesystem \<Rightarrow> filesystem \<Rightarrow> bool" where
  "fs_le fs fs' =
     (\<forall>p. case lookup fs p of
            None \<Rightarrow> True
          | Some Dir \<Rightarrow> lookup fs' p = Some Dir
          | Some (File c) \<Rightarrow> (\<exists>c'. lookup fs' p = Some (File c')))"




section \<open>The command vector\<close>

lemma str_split_not_Nil: "str_split c s \<noteq> []"
  by (induction s) (auto split: list.splits)

lemma str_split_no_sep: "tok \<in> set (str_split c s) \<Longrightarrow> c \<notin> set tok"
  by (induction s arbitrary: tok) (auto split: if_splits list.splits)

lemma str_split_append: "str_split c (x @ c # y) = str_split c x @ str_split c y"
  by (induction x) (auto split: list.splits simp: str_split_not_Nil)

lemma cmd_values_Cons: "cmd_values (oa # rest) = cmd_values [oa] @ cmd_values rest"
  by (simp add: cmd_values_def)

lemma regex_option_cmd_case:
  "(case regex_option (opt, a) c of
      Inl h \<Rightarrow> True
    | Inr c' \<Rightarrow>
        cmd c' = cmd c @ (if opt = ''-c'' \<or> opt = ''--cmd'' then str_split CHR '' '' a else []))"
  by (simp add: regex_option_def Let_def)

lemma glob_option_cmd_case:
  "(case glob_option env (opt, a) c of
      Inl h \<Rightarrow> True
    | Inr c' \<Rightarrow>
        cmd c' = cmd c @ (if opt = ''-c'' \<or> opt = ''--cmd'' then str_split CHR '' '' a else []))"
  by (simp add: glob_option_def glob_set_max_jobs_def glob_set_max_hours_def Let_def
           del: str_contains.simps split: option.split)

lemma regex_option_cmd:
  "regex_option oa c = Inr c' \<Longrightarrow>
   cmd c' = cmd c @ concat (map (str_split CHR '' '') (cmd_values [oa]))"
  using regex_option_cmd_case [where opt = "fst oa" and a = "snd oa" and c = c]
  by (cases oa) (simp add: cmd_values_def)

lemma glob_option_cmd:
  "glob_option env oa c = Inr c' \<Longrightarrow>
   cmd c' = cmd c @ concat (map (str_split CHR '' '') (cmd_values [oa]))"
  using glob_option_cmd_case [where env = env and opt = "fst oa" and a = "snd oa" and c = c]
  by (cases oa) (simp add: cmd_values_def)

lemma glob_options_cmd:
  "glob_options env options c = Inr c' \<Longrightarrow>
   cmd c' = cmd c @ concat (map (str_split CHR '' '') (cmd_values options))"
proof (induction options arbitrary: c)
  case Nil
  then show ?case by (simp add: cmd_values_def)
next
  case (Cons oa rest)
  then obtain c1 where s: "glob_option env oa c = Inr c1" and r: "glob_options env rest c1 = Inr c'"
    by (auto split: sum.splits)
  show ?case
    using glob_option_cmd [OF s] Cons.IH [OF r] cmd_values_Cons [of oa rest] by simp
qed

lemma regex_options_cmd:
  "regex_options options c = Inr c' \<Longrightarrow>
   cmd c' = cmd c @ concat (map (str_split CHR '' '') (cmd_values options))"
proof (induction options arbitrary: c)
  case Nil
  then show ?case by (simp add: cmd_values_def)
next
  case (Cons oa rest)
  then obtain c1 where s: "regex_option oa c = Inr c1" and r: "regex_options rest c1 = Inr c'"
    by (auto split: sum.splits)
  show ?case
    using regex_option_cmd [OF s] Cons.IH [OF r] cmd_values_Cons [of oa rest] by simp
qed

lemma glob_parse_options:
  assumes "glob_parse env argv = Inr cfg"
  shows "\<exists>options arguments.
           getopt argv ''vh:p:c:'' glob_longopts = Inr (options, arguments) \<and>
           glob_options env options glob_defaults = Inr cfg"
proof (cases "getopt argv ''vh:p:c:'' glob_longopts")
  case (Inl e)
  then show ?thesis using assms by (simp add: glob_parse_def)
next
  case (Inr r)
  obtain options arguments where r: "r = (options, arguments)" by (cases r)
  show ?thesis
  proof (cases "glob_options env options glob_defaults")
    case (Inl h)
    then show ?thesis using assms Inr r by (simp add: glob_parse_def)
  next
    case c: (Inr c)
    have "cfg = c"
      using assms Inr r c by (simp add: glob_parse_def split: if_split_asm)
    then show ?thesis using Inr r c by simp
  qed
qed

lemma parse_options:
  assumes "parse env argv = Inr cfg"
  shows "\<exists>options arguments.
           getopt argv ''vhb:p:c:'' regex_longopts = Inr (options, arguments) \<and>
           regex_options options regex_defaults = Inr cfg"
proof (cases "getopt argv ''vhb:p:c:'' regex_longopts")
  case (Inl e)
  then show ?thesis using assms by (simp add: parse_def)
next
  case (Inr r)
  obtain options arguments where r: "r = (options, arguments)" by (cases r)
  show ?thesis
  proof (cases "regex_options options regex_defaults")
    case (Inl h)
    then show ?thesis using assms Inr r by (simp add: parse_def)
  next
    case c: (Inr c)
    have "cfg = c"
      using assms Inr r c by (simp add: parse_def split: if_split_asm)
    then show ?thesis using Inr r c by simp
  qed
qed

lemma glob_parse_cmd:
  assumes "glob_parse env argv = Inr cfg"
  shows "\<exists>options arguments.
           getopt argv ''vh:p:c:'' glob_longopts = Inr (options, arguments) \<and>
           cmd cfg = concat (map (str_split CHR '' '') (cmd_values options))"
proof -
  obtain options arguments where
    g: "getopt argv ''vh:p:c:'' glob_longopts = Inr (options, arguments)" and
    o: "glob_options env options glob_defaults = Inr cfg"
    using glob_parse_options [OF assms] by blast
  have "cmd cfg = concat (map (str_split CHR '' '') (cmd_values options))"
    using glob_options_cmd [OF o] by (simp add: glob_defaults_def)
  with g show ?thesis by blast
qed

lemma parse_cmd:
  assumes "parse env argv = Inr cfg"
  shows "\<exists>options arguments.
           getopt argv ''vhb:p:c:'' regex_longopts = Inr (options, arguments) \<and>
           cmd cfg = concat (map (str_split CHR '' '') (cmd_values options))"
proof -
  obtain options arguments where
    g: "getopt argv ''vhb:p:c:'' regex_longopts = Inr (options, arguments)" and
    o: "regex_options options regex_defaults = Inr cfg"
    using parse_options [OF assms] by blast
  have "cmd cfg = concat (map (str_split CHR '' '') (cmd_values options))"
    using regex_options_cmd [OF o] by (simp add: regex_defaults_def)
  with g show ?thesis by blast
qed

lemma concat_split_no_space:
  "tok \<in> set (concat (map (str_split c) vs)) \<Longrightarrow> c \<notin> set tok"
  by (auto dest: str_split_no_sep)

section \<open>Files are only ever added\<close>

lemma fs_le_refl: "fs_le fs fs"
  by (auto simp: fs_le_def split: option.splits node.splits)

lemma fs_le_trans: "fs_le a b \<Longrightarrow> fs_le b c \<Longrightarrow> fs_le a c"
  unfolding fs_le_def
proof (intro allI)
  fix p
  assume ab: "\<forall>p. case lookup a p of None \<Rightarrow> True | Some Dir \<Rightarrow> lookup b p = Some Dir
                 | Some (File c) \<Rightarrow> (\<exists>c'. lookup b p = Some (File c'))"
     and bc: "\<forall>p. case lookup b p of None \<Rightarrow> True | Some Dir \<Rightarrow> lookup c p = Some Dir
                 | Some (File x) \<Rightarrow> (\<exists>c'. lookup c p = Some (File c'))"
  show "case lookup a p of None \<Rightarrow> True | Some Dir \<Rightarrow> lookup c p = Some Dir
        | Some (File x) \<Rightarrow> (\<exists>c'. lookup c p = Some (File c'))"
    using ab [rule_format, of p] bc [rule_format, of p]
    by (auto split: option.splits node.splits)
qed

lemma fs_le_Dir: "fs_le fs fs' \<Longrightarrow> lookup fs p = Some Dir \<Longrightarrow> lookup fs' p = Some Dir"
  by (auto simp: fs_le_def split: option.splits node.splits dest!: spec [of _ p])

lemma fs_le_File: "fs_le fs fs' \<Longrightarrow> lookup fs p = Some (File c) \<Longrightarrow> \<exists>c'. lookup fs' p = Some (File c')"
  by (auto simp: fs_le_def split: option.splits node.splits dest!: spec [of _ p])

lemma fs_le_exists:
  assumes "fs_le fs fs'" and "lookup fs p \<noteq> None"
  shows "lookup fs' p \<noteq> None"
proof -
  from assms(2) obtain n where n: "lookup fs p = Some n" by blast
  show ?thesis
  proof (cases n)
    case Dir
    with n fs_le_Dir [OF assms(1)] show ?thesis by simp
  next
    case (File c)
    with n fs_le_File [OF assms(1)] show ?thesis by fastforce
  qed
qed

lemma lookup_update:
  "p \<noteq> [] \<Longrightarrow> lookup (AList.update p v fs) q = (if q = p then Some v else lookup fs q)"
  by (simp add: lookup_def update_conv')

lemma lookup_Nil [simp]: "lookup fs [] = Some Dir"
  by (simp add: lookup_def)

lemma fs_le_update_new:
  "lookup fs p = None \<Longrightarrow> fs_le fs (AList.update p v fs)"
  by (cases "p = []") (auto simp: fs_le_def lookup_update split: option.splits node.splits)

lemma fs_le_update_file:
  "lookup fs p = Some (File c) \<Longrightarrow> fs_le fs (AList.update p (File c') fs)"
  by (cases "p = []") (auto simp: fs_le_def lookup_update split: option.splits node.splits)

lemma create_x_Inr:
  "create_x fs p content = Inr fs' \<Longrightarrow>
   lookup fs p = None \<and> fs' = AList.update p (File content) fs \<and> fs_le fs fs' \<and>
   lookup fs' p = Some (File content)"
  by (cases "p = []")
     (auto simp: create_x_def lookup_update fs_le_update_new split: if_splits option.splits node.splits)

lemma create_x_exists: "lookup fs p \<noteq> None \<Longrightarrow> create_x fs p content = Inl FileExistsError"
  by (simp add: create_x_def)

lemma create_w_Inr:
  "create_w fs p = Inr fs' \<Longrightarrow> fs_le fs fs' \<and> lookup fs' p = Some (File [])"
  by (cases "p = []")
     (auto simp: create_w_def lookup_update fs_le_update_new fs_le_update_file
           split: if_splits option.splits node.splits)

lemma write_file_le:
  "lookup fs p = Some (File c) \<Longrightarrow>
   fs_le fs (write_file fs p s) \<and> lookup (write_file fs p s) p = Some (File s)"
  by (cases "p = []") (auto simp: write_file_def lookup_update fs_le_update_file)

section \<open>What a pass does to the flag, the trace and the filesystem\<close>











lemma glob_run_job_elim:
  assumes "glob_run_job env cfg home subdir st = (c, st')"
  obtains
    (no_chdir) e where
      "os_chdir (emit (Acquired subdir) st) subdir = Inl e"
      "c = Raise e" "st' = emit (Acquired subdir) st"
  | (no_out) st2 e where
      "os_chdir (emit (Acquired subdir) st) subdir = Inr st2"
      "open_w st2 (label cfg @ ''.out'') = Inl e"
      "c = Raise e" "st' = st2"
  | (no_err) st2 g st3 e where
      "os_chdir (emit (Acquired subdir) st) subdir = Inr st2"
      "open_w st2 (label cfg @ ''.out'') = Inr (g, st3)"
      "open_w st3 (label cfg @ ''.err'') = Inl e"
      "c = Raise e" "st' = st3"
  | (no_launch) st2 g st3 h st4 e where
      "os_chdir (emit (Acquired subdir) st) subdir = Inr st2"
      "open_w st2 (label cfg @ ''.out'') = Inr (g, st3)"
      "open_w st3 (label cfg @ ''.err'') = Inr (h, st4)"
      "subprocess_call env (cmd cfg) g h st4 = Inl e"
      "c = Raise e" "st' = st4"
  | (no_return) st2 g st3 h st4 st5 e where
      "os_chdir (emit (Acquired subdir) st) subdir = Inr st2"
      "open_w st2 (label cfg @ ''.out'') = Inr (g, st3)"
      "open_w st3 (label cfg @ ''.err'') = Inr (h, st4)"
      "subprocess_call env (cmd cfg) g h st4 = Inr st5"
      "chdir_path (st5\<lparr>processed_jobs := processed_jobs st5 + 1\<rparr>) home = Inl e"
      "c = Raise e" "st' = st5\<lparr>processed_jobs := processed_jobs st5 + 1\<rparr>"
  | (finished) st2 g st3 h st4 st5 where
      "os_chdir (emit (Acquired subdir) st) subdir = Inr st2"
      "open_w st2 (label cfg @ ''.out'') = Inr (g, st3)"
      "open_w st3 (label cfg @ ''.err'') = Inr (h, st4)"
      "subprocess_call env (cmd cfg) g h st4 = Inr st5"
      "chdir_path (st5\<lparr>processed_jobs := processed_jobs st5 + 1\<rparr>) home = Inr st'"
      "c = Next"
  using assms
  by (auto simp: glob_run_job_def Let_def split: sum.splits prod.splits)
















lemma regex_job_elim:
  assumes "regex_job env cfg basepath subdir st = (c, st')"
  obtains
    (no_chdir) e where
      "os_chdir (emit (Acquired subdir) st) (os_path_join basepath subdir) = Inl e"
      "c = Raise e" "st' = emit (Acquired subdir) st"
  | (no_out) st2 e where
      "os_chdir (emit (Acquired subdir) st) (os_path_join basepath subdir) = Inr st2"
      "open_w st2 (os_path_join (os_path_join basepath subdir) ''worker.out'') = Inl e"
      "c = Raise e" "st' = st2"
  | (no_err) st2 g st3 e where
      "os_chdir (emit (Acquired subdir) st) (os_path_join basepath subdir) = Inr st2"
      "open_w st2 (os_path_join (os_path_join basepath subdir) ''worker.out'') = Inr (g, st3)"
      "open_w st3 (os_path_join (os_path_join basepath subdir) ''worker.err'') = Inl e"
      "c = Raise e" "st' = st3"
  | (no_launch) st2 g st3 h st4 e where
      "os_chdir (emit (Acquired subdir) st) (os_path_join basepath subdir) = Inr st2"
      "open_w st2 (os_path_join (os_path_join basepath subdir) ''worker.out'') = Inr (g, st3)"
      "open_w st3 (os_path_join (os_path_join basepath subdir) ''worker.err'') = Inr (h, st4)"
      "subprocess_call env (cmd cfg) g h st4 = Inl e"
      "c = Raise e" "st' = st4"
  | (finished) st2 g st3 h st4 st5 where
      "os_chdir (emit (Acquired subdir) st) (os_path_join basepath subdir) = Inr st2"
      "open_w st2 (os_path_join (os_path_join basepath subdir) ''worker.out'') = Inr (g, st3)"
      "open_w st3 (os_path_join (os_path_join basepath subdir) ''worker.err'') = Inr (h, st4)"
      "subprocess_call env (cmd cfg) g h st4 = Inr st5"
      "c = Next" "st' = st5\<lparr>processed_jobs := processed_jobs st5 + 1\<rparr>"
  using assms
  by (auto simp: regex_job_def Let_def split: sum.splits prod.splits)


text \<open>The three stages of the try statement, named.\<close>

lemma regex_try_stages:
  assumes "regex_try env cfg homepath basepath subdir st = (c, st')"
  obtains c1 st1 c2 st2 where
    "(case open_x st (regex_lockfile basepath subdir) (''Reserved by worker: '' @ worker_id env) of
        Inl e \<Rightarrow> (Raise e, st)
      | Inr st0 \<Rightarrow> regex_job env cfg basepath subdir st0) = (c1, st1)"
    "(if c1 = Raise FileExistsError
      then (Next, emit (CouldNotLock (regex_lockfile basepath subdir)) st1)
      else (c1, st1)) = (c2, st2)"
    "(case chdir_path st2 homepath of
        Inl e \<Rightarrow> (Raise e, st2)
      | Inr st3 \<Rightarrow> (c2, st3)) = (c, st')"
proof -
  obtain c1 st1 where a:
    "(case open_x st (regex_lockfile basepath subdir) (''Reserved by worker: '' @ worker_id env) of
        Inl e \<Rightarrow> (Raise e, st)
      | Inr st0 \<Rightarrow> regex_job env cfg basepath subdir st0) = (c1, st1)"
    by (cases "(case open_x st (regex_lockfile basepath subdir) (''Reserved by worker: '' @ worker_id env) of
        Inl e \<Rightarrow> (Raise e, st)
      | Inr st0 \<Rightarrow> regex_job env cfg basepath subdir st0)")
  obtain c2 st2 where b:
    "(if c1 = Raise FileExistsError
      then (Next, emit (CouldNotLock (regex_lockfile basepath subdir)) st1)
      else (c1, st1)) = (c2, st2)"
    by (cases "(if c1 = Raise FileExistsError
      then (Next, emit (CouldNotLock (regex_lockfile basepath subdir)) st1)
      else (c1, st1))")
  have "(case chdir_path st2 homepath of
        Inl e \<Rightarrow> (Raise e, st2)
      | Inr st3 \<Rightarrow> (c2, st3)) = (c, st')"
    using assms a b unfolding regex_try_def Let_def by simp
  with a b that show thesis by blast
qed





lemma regex_candidate_skipped:
  assumes "regex_candidate env cfg homepath basepath pattern subdir st = (c, st')"
    and "\<not> os_path_isdir st subdir \<or> re_search env pattern subdir \<noteq> Some True"
  shows "st' = st"
  using assms by (auto simp: regex_candidate_def split: option.splits bool.splits if_splits)

lemma regex_candidate_locked:
  assumes "os_path_isdir st subdir"
    and "re_search env pattern subdir = Some True"
    and "os_path_isfile st (regex_lockfile basepath subdir)"
  shows "regex_candidate env cfg homepath basepath pattern subdir st =
           (Next, emit (LockExists subdir) (emit (Observed subdir True) st))"
  using assms by (simp add: regex_candidate_def)








section \<open>What running a job does\<close>

lemma emit_fields [simp]:
  "files (emit e st) = files st" "cwd (emit e st) = cwd st"
  "processed_jobs (emit e st) = processed_jobs st" "keep_looping (emit e st) = keep_looping st"
  "ticks (emit e st) = ticks st" "start_time (emit e st) = start_time st"
  "trace (emit e st) = trace st @ [e]"
  by (simp_all add: emit_def)

lemma node_at_emit [simp]: "node_at (emit e st) s = node_at st s"
  by (simp add: node_at_def)

lemma os_chdir_effect:
  "os_chdir st s = Inr st' \<Longrightarrow>
   files st' = files st \<and> processed_jobs st' = processed_jobs st \<and> node_at st s = Some Dir"
  by (auto simp: os_chdir_def split: option.splits node.splits)

lemma os_chdir_error: "os_chdir st s = Inl e \<Longrightarrow> e \<noteq> FileExistsError"
  by (auto simp: os_chdir_def split: option.splits node.splits)

lemma chdir_path_effect:
  "chdir_path st p = Inr st' \<Longrightarrow>
   files st' = files st \<and> processed_jobs st' = processed_jobs st \<and> cwd st' = p"
  by (auto simp: chdir_path_def split: option.splits node.splits)

lemma chdir_path_Dir:
  "lookup (files st) p = Some Dir \<Longrightarrow> chdir_path st p = Inr (st\<lparr>cwd := p\<rparr>)"
  by (simp add: chdir_path_def)

lemma open_w_effect:
  "open_w st s = Inr (g, st') \<Longrightarrow>
   fs_le (files st) (files st') \<and> lookup (files st') g = Some (File []) \<and>
   processed_jobs st' = processed_jobs st \<and> cwd st' = cwd st"
  by (auto simp: open_w_def split: if_splits sum.splits dest: create_w_Inr)

lemma create_w_error: "create_w fs p = Inl e \<Longrightarrow> e \<noteq> FileExistsError"
  by (auto simp: create_w_def split: option.splits node.splits)

lemma open_w_error: "open_w st s = Inl e \<Longrightarrow> e \<noteq> FileExistsError"
  by (auto simp: open_w_def split: if_splits sum.splits dest: create_w_error)

lemma open_x_effect:
  "open_x st s content = Inr st' \<Longrightarrow>
   fs_le (files st) (files st') \<and>
   lookup (files st') (resolve (cwd st) s) = Some (File content) \<and>
   lookup (files st) (resolve (cwd st) s) = None \<and>
   processed_jobs st' = processed_jobs st \<and> cwd st' = cwd st"
  by (auto simp: open_x_def split: if_splits sum.splits dest: create_x_Inr)

lemma subprocess_call_effect:
  assumes "subprocess_call env argv g h st = Inr st'"
    and g: "lookup (files st) g = Some (File cg)"
    and h: "lookup (files st) h = Some (File ch)"
  shows "fs_le (files st) (files st') \<and> processed_jobs st' = processed_jobs st \<and> cwd st' = cwd st"
proof -
  from assms(1) obtain sout serr where
    st': "st' = emit (Called argv (cwd st))
                  (st\<lparr>files := write_file (write_file (files st) g sout) h serr\<rparr>)"
    by (auto simp: subprocess_call_def split: launch.splits)
  have a: "fs_le (files st) (write_file (files st) g sout)"
    using write_file_le [OF g] by simp
  from fs_le_File [OF a h] obtain ch' where
    "lookup (write_file (files st) g sout) h = Some (File ch')" by blast
  from write_file_le [OF this]
  have b: "fs_le (write_file (files st) g sout) (write_file (write_file (files st) g sout) h serr)"
    by simp
  from fs_le_trans [OF a b] st' show ?thesis by simp
qed

lemma subprocess_call_cannot:
  "\<forall>wd. call env argv wd = CannotLaunch e \<Longrightarrow> subprocess_call env argv g h st = Inl e"
  by (simp add: subprocess_call_def)

text \<open>Opening the two output streams and running the command, as both scripts do.\<close>

lemma streams_effect:
  assumes o: "open_w st2 a = Inr (g, st3)" and e: "open_w st3 b = Inr (h, st4)"
  shows "fs_le (files st2) (files st4) \<and> processed_jobs st4 = processed_jobs st2 \<and>
         cwd st4 = cwd st2 \<and>
         (\<exists>cg. lookup (files st4) g = Some (File cg)) \<and> lookup (files st4) h = Some (File [])"
proof -
  from open_w_effect [OF o] have
    a: "fs_le (files st2) (files st3)" and ag: "lookup (files st3) g = Some (File [])" and
    aj: "processed_jobs st3 = processed_jobs st2" and ac: "cwd st3 = cwd st2" by simp_all
  from open_w_effect [OF e] have
    b: "fs_le (files st3) (files st4)" and bh: "lookup (files st4) h = Some (File [])" and
    bj: "processed_jobs st4 = processed_jobs st3" and bc: "cwd st4 = cwd st3" by simp_all
  from fs_le_File [OF b ag] fs_le_trans [OF a b] bh aj bj ac bc show ?thesis by simp
qed

lemma streams_call_effect:
  assumes o: "open_w st2 a = Inr (g, st3)" and e: "open_w st3 b = Inr (h, st4)"
    and c: "subprocess_call env argv g h st4 = Inr st5"
  shows "fs_le (files st2) (files st5) \<and> processed_jobs st5 = processed_jobs st2 \<and>
         cwd st5 = cwd st2"
proof -
  from streams_effect [OF o e] obtain cg where
    a: "fs_le (files st2) (files st4)" and j: "processed_jobs st4 = processed_jobs st2" and
    w: "cwd st4 = cwd st2" and g: "lookup (files st4) g = Some (File cg)" and
    h: "lookup (files st4) h = Some (File [])" by blast
  from subprocess_call_effect [OF c g h] fs_le_trans [OF a] j w show ?thesis by simp
qed

lemma glob_run_job_effect:
  assumes "glob_run_job env cfg home subdir st = (c, st')"
  shows "fs_le (files st) (files st') \<and>
         (c = Next \<longrightarrow> processed_jobs st' = processed_jobs st + 1 \<and> cwd st' = home) \<and>
         (c \<noteq> Next \<longrightarrow> (\<exists>e. c = Raise e)) \<and>
         processed_jobs st \<le> processed_jobs st' \<and> processed_jobs st' \<le> processed_jobs st + 1"
  using assms
proof (cases rule: glob_run_job_elim)
  case (no_chdir e)
  then show ?thesis by (simp add: fs_le_refl)
next
  case (no_out st2 e)
  with os_chdir_effect [OF no_out(1)] show ?thesis by (simp add: fs_le_refl)
next
  case (no_err st2 g st3 e)
  with os_chdir_effect [OF no_err(1)] open_w_effect [OF no_err(2)] show ?thesis by simp
next
  case (no_launch st2 g st3 h st4 e)
  with os_chdir_effect [OF no_launch(1)] streams_effect [OF no_launch(2) no_launch(3)]
  show ?thesis by simp
next
  case (no_return st2 g st3 h st4 st5 e)
  with os_chdir_effect [OF no_return(1)]
    streams_call_effect [OF no_return(2) no_return(3) no_return(4)]
  show ?thesis by simp
next
  case (finished st2 g st3 h st4 st5)
  with os_chdir_effect [OF finished(1)]
    streams_call_effect [OF finished(2) finished(3) finished(4)]
    chdir_path_effect [OF finished(5)]
  show ?thesis by simp
qed

lemma glob_run_job_cannot_launch:
  assumes "glob_run_job env cfg home subdir st = (c, st')"
    and "\<forall>wd. call env (cmd cfg) wd = CannotLaunch e"
  shows "(\<exists>e'. c = Raise e') \<and> processed_jobs st' = processed_jobs st \<and>
         fs_le (files st) (files st')"
  using assms(1)
proof (cases rule: glob_run_job_elim)
  case (no_chdir e)
  then show ?thesis by (simp add: fs_le_refl)
next
  case (no_out st2 e)
  with os_chdir_effect [OF no_out(1)] show ?thesis by (simp add: fs_le_refl)
next
  case (no_err st2 g st3 e)
  with os_chdir_effect [OF no_err(1)] open_w_effect [OF no_err(2)] show ?thesis by simp
next
  case (no_launch st2 g st3 h st4 e)
  with os_chdir_effect [OF no_launch(1)] streams_effect [OF no_launch(2) no_launch(3)]
  show ?thesis by simp
next
  case (no_return st2 g st3 h st4 st5 e)
  with subprocess_call_cannot [OF assms(2), of g h st4] show ?thesis by simp
next
  case (finished st2 g st3 h st4 st5)
  with subprocess_call_cannot [OF assms(2), of g h st4] show ?thesis by simp
qed

lemma regex_job_effect:
  assumes "regex_job env cfg basepath subdir st = (c, st')"
  shows "fs_le (files st) (files st') \<and>
         (c = Next \<longrightarrow> processed_jobs st' = processed_jobs st + 1) \<and>
         (c \<noteq> Next \<longrightarrow> processed_jobs st' = processed_jobs st \<and> (\<exists>e. c = Raise e))"
  using assms
proof (cases rule: regex_job_elim)
  case (no_chdir e)
  then show ?thesis by (simp add: fs_le_refl)
next
  case (no_out st2 e)
  with os_chdir_effect [OF no_out(1)] show ?thesis by (simp add: fs_le_refl)
next
  case (no_err st2 g st3 e)
  with os_chdir_effect [OF no_err(1)] open_w_effect [OF no_err(2)] show ?thesis by simp
next
  case (no_launch st2 g st3 h st4 e)
  with os_chdir_effect [OF no_launch(1)] streams_effect [OF no_launch(2) no_launch(3)]
  show ?thesis by simp
next
  case (finished st2 g st3 h st4 st5)
  with os_chdir_effect [OF finished(1)]
    streams_call_effect [OF finished(2) finished(3) finished(4)]
  show ?thesis by simp
qed

lemma regex_job_cannot_launch:
  assumes "regex_job env cfg basepath subdir st = (c, st')"
    and "\<forall>wd. call env (cmd cfg) wd = CannotLaunch e" and "e \<noteq> FileExistsError"
  shows "(\<exists>e'. c = Raise e' \<and> e' \<noteq> FileExistsError) \<and>
         processed_jobs st' = processed_jobs st \<and> fs_le (files st) (files st')"
  using assms(1)
proof (cases rule: regex_job_elim)
  case (no_chdir e)
  with os_chdir_error [OF no_chdir(1)] show ?thesis by (simp add: fs_le_refl)
next
  case (no_out st2 e)
  with open_w_error [OF no_out(2)] os_chdir_effect [OF no_out(1)]
  show ?thesis by (simp add: fs_le_refl)
next
  case (no_err st2 g st3 e)
  with open_w_error [OF no_err(3)] os_chdir_effect [OF no_err(1)] open_w_effect [OF no_err(2)]
  show ?thesis by simp
next
  case (no_launch st2 g st3 h st4 e')
  with subprocess_call_cannot [OF assms(2), of g h st4] assms(3)
    os_chdir_effect [OF no_launch(1)] streams_effect [OF no_launch(2) no_launch(3)]
  show ?thesis by simp
next
  case (finished st2 g st3 h st4 st5)
  with subprocess_call_cannot [OF assms(2), of g h st4] show ?thesis by simp
qed


lemma glob_claim_True:
  "glob_claim env lockfile st = Inr (True, st') \<Longrightarrow>
   open_x st lockfile (''Reserved by worker: '' @ worker_id env @ [CHR 0x0A]) = Inr st'"
  by (auto simp: glob_claim_def split: sum.splits if_splits)

lemma glob_candidate_cannot_launch:
  assumes cannot: "\<forall>wd. call env (cmd cfg) wd = CannotLaunch e"
    and dir: "os_path_isdir st entry"
    and unl: "\<not> os_path_isfile st (glob_lockfile cfg entry)"
    and claim: "glob_claim env (glob_lockfile cfg entry)
                  ((emit (Observed entry False) st)\<lparr>keep_looping := True\<rparr>) = Inr (True, st2)"
  shows "\<exists>e' st'. glob_candidate env cfg home entry st = (Raise e', st') \<and>
           glob_entries env cfg home (entry # rest) st = (Raise e', st') \<and>
           processed_jobs st' = processed_jobs st \<and>
           lookup (files st') (resolve (cwd st) (glob_lockfile cfg entry)) \<noteq> None"
proof -
  let ?st1 = "(emit (Observed entry False) st)\<lparr>keep_looping := True\<rparr>"
  obtain c3 st3 where j: "glob_run_job env cfg home entry st2 = (c3, st3)"
    by (cases "glob_run_job env cfg home entry st2")
  from glob_run_job_cannot_launch [OF j cannot] obtain e' where
    c3: "c3 = Raise e'" and pj: "processed_jobs st3 = processed_jobs st2" and
    le: "fs_le (files st2) (files st3)" by blast
  from open_x_effect [OF glob_claim_True [OF claim]] have
    l2: "lookup (files st2) (resolve (cwd st) (glob_lockfile cfg entry)) \<noteq> None" and
    p2: "processed_jobs st2 = processed_jobs st" by simp_all
  have cand: "glob_candidate env cfg home entry st = (Raise e', st3)"
    using dir unl claim j c3 by (simp add: glob_candidate_def Let_def)
  then have "glob_entries env cfg home (entry # rest) st = (Raise e', st3)" by simp
  with cand pj p2 fs_le_exists [OF le l2] show ?thesis by simp
qed

lemma regex_try_cannot_launch:
  assumes t: "regex_try env cfg homepath basepath subdir st = (c, st')"
    and cannot: "\<forall>wd. call env (cmd cfg) wd = CannotLaunch e" and ne: "e \<noteq> FileExistsError"
    and claim: "open_x st (regex_lockfile basepath subdir)
                  (''Reserved by worker: '' @ worker_id env) = Inr st2"
  shows "(\<exists>e'. c = Raise e') \<and> processed_jobs st' = processed_jobs st \<and>
         lookup (files st') (resolve (cwd st) (regex_lockfile basepath subdir)) \<noteq> None"
proof -
  from t obtain c1 st1 c2 s2 where
    a: "(case open_x st (regex_lockfile basepath subdir) (''Reserved by worker: '' @ worker_id env) of
        Inl e \<Rightarrow> (Raise e, st)
      | Inr st0 \<Rightarrow> regex_job env cfg basepath subdir st0) = (c1, st1)" and
    b: "(if c1 = Raise FileExistsError
      then (Next, emit (CouldNotLock (regex_lockfile basepath subdir)) st1)
      else (c1, st1)) = (c2, s2)" and
    d: "(case chdir_path s2 homepath of
        Inl e \<Rightarrow> (Raise e, s2)
      | Inr st3 \<Rightarrow> (c2, st3)) = (c, st')"
    by (rule regex_try_stages)
  from a claim have j: "regex_job env cfg basepath subdir st2 = (c1, st1)" by simp
  from regex_job_cannot_launch [OF j cannot ne] obtain e' where
    c1: "c1 = Raise e'" "e' \<noteq> FileExistsError" and
    pj: "processed_jobs st1 = processed_jobs st2" and le: "fs_le (files st2) (files st1)"
    by blast
  from b c1 have s2: "c2 = Raise e'" "s2 = st1" by simp_all
  from open_x_effect [OF claim] have
    l2: "lookup (files st2) (resolve (cwd st) (regex_lockfile basepath subdir)) \<noteq> None" and
    p2: "processed_jobs st2 = processed_jobs st" by simp_all
  have l1: "lookup (files st1) (resolve (cwd st) (regex_lockfile basepath subdir)) \<noteq> None"
    by (rule fs_le_exists [OF le l2])
  show ?thesis
  proof (cases "chdir_path s2 homepath")
    case (Inl e2)
    with d s2 pj p2 l1 show ?thesis by auto
  next
    case (Inr st3)
    with d s2 pj p2 l1 chdir_path_effect [OF Inr] show ?thesis by auto
  qed
qed

lemma regex_candidate_cannot_launch:
  assumes cannot: "\<forall>wd. call env (cmd cfg) wd = CannotLaunch e" and ne: "e \<noteq> FileExistsError"
    and dir: "os_path_isdir st entry" and m: "re_search env pattern entry = Some True"
    and unl: "\<not> os_path_isfile st (regex_lockfile basepath entry)"
    and claim: "open_x ((emit (Observed entry False) st)\<lparr>keep_looping := True\<rparr>)
                  (regex_lockfile basepath entry)
                  (''Reserved by worker: '' @ worker_id env) = Inr st2"
  shows "\<exists>e' st'. regex_candidate env cfg homepath basepath pattern entry st = (Raise e', st') \<and>
           regex_subdirs env cfg homepath basepath pattern (entry # rest) st = (Raise e', st') \<and>
           processed_jobs st' = processed_jobs st \<and>
           lookup (files st') (resolve (cwd st) (regex_lockfile basepath entry)) \<noteq> None"
proof -
  let ?st1 = "(emit (Observed entry False) st)\<lparr>keep_looping := True\<rparr>"
  obtain c3 st3 where t: "regex_try env cfg homepath basepath entry ?st1 = (c3, st3)"
    by (cases "regex_try env cfg homepath basepath entry ?st1")
  from regex_try_cannot_launch [OF t cannot ne claim] obtain e' where
    c3: "c3 = Raise e'" and pj: "processed_jobs st3 = processed_jobs st" and
    l: "lookup (files st3) (resolve (cwd st) (regex_lockfile basepath entry)) \<noteq> None"
    by auto
  have cand: "regex_candidate env cfg homepath basepath pattern entry st = (Raise e', st3)"
    using dir m unl t c3 by (simp add: regex_candidate_def Let_def)
  then have "regex_subdirs env cfg homepath basepath pattern (entry # rest) st = (Raise e', st3)"
    by simp
  with cand pj l show ?thesis by simp
qed

lemma regex_try_restores_cwd:
  assumes t: "regex_try env cfg homepath basepath subdir st = (c, st')"
    and home: "lookup (files st) homepath = Some Dir"
  shows "cwd st' = homepath \<and> fs_le (files st) (files st')"
proof -
  from t obtain c1 st1 c2 s2 where
    a: "(case open_x st (regex_lockfile basepath subdir) (''Reserved by worker: '' @ worker_id env) of
        Inl e \<Rightarrow> (Raise e, st)
      | Inr st0 \<Rightarrow> regex_job env cfg basepath subdir st0) = (c1, st1)" and
    b: "(if c1 = Raise FileExistsError
      then (Next, emit (CouldNotLock (regex_lockfile basepath subdir)) st1)
      else (c1, st1)) = (c2, s2)" and
    d: "(case chdir_path s2 homepath of
        Inl e \<Rightarrow> (Raise e, s2)
      | Inr st3 \<Rightarrow> (c2, st3)) = (c, st')"
    by (rule regex_try_stages)
  have le1: "fs_le (files st) (files st1)"
  proof (cases "open_x st (regex_lockfile basepath subdir) (''Reserved by worker: '' @ worker_id env)")
    case (Inl e)
    with a show ?thesis by (simp add: fs_le_refl)
  next
    case (Inr st0)
    with a have "regex_job env cfg basepath subdir st0 = (c1, st1)" by simp
    from regex_job_effect [OF this] open_x_effect [OF Inr] show ?thesis
      by (blast intro: fs_le_trans)
  qed
  have f2: "files s2 = files st1" using b by (auto split: if_splits)
  have "lookup (files s2) homepath = Some Dir"
    using fs_le_Dir [OF le1 home] f2 by simp
  from chdir_path_Dir [OF this] d have "st' = s2\<lparr>cwd := homepath\<rparr>" by simp
  with le1 f2 show ?thesis by simp
qed

section \<open>The race: at most one lock\<close>














text \<open>
  A racer alone takes the three steps that the sequential script takes for a candidate:
  the body of the loop is these steps followed by the test of the stop conditions.
\<close>

lemma lone_racer_steps:
  "(case racer_step cfg home entry (files st) \<lparr>renv = env, stage = Checking, own = st\<rparr> of
      (fs1, r1) \<Rightarrow>
    case racer_step cfg home entry fs1 r1 of
      (fs2, r2) \<Rightarrow>
    case racer_step cfg home entry fs2 r2 of
      (fs3, r3) \<Rightarrow>
        glob_candidate env cfg home entry st =
          (case stage r3 of
             Skipped \<Rightarrow> (Next, own r3)
           | Failed e \<Rightarrow> (Raise e, own r3)
           | Aborted e \<Rightarrow> (Raise e, own r3)
           | Lost \<Rightarrow> glob_evaluate env cfg (own r3)
           | Finished \<Rightarrow> glob_evaluate env cfg (own r3)
           | _ \<Rightarrow> (Next, own r3)))"
proof (cases "os_path_isdir st entry")
  case False
  then show ?thesis by (simp add: racer_step_def glob_candidate_def)
next
  case dir: True
  show ?thesis
  proof (cases "os_path_isfile st (glob_lockfile cfg entry)")
    case True
    with dir show ?thesis by (simp add: racer_step_def glob_candidate_def)
  next
    case unl: False
    let ?st1 = "(emit (Observed entry False) st)\<lparr>keep_looping := True\<rparr>"
    have f1: "?st1\<lparr>files := files st\<rparr> = ?st1" by simp
    show ?thesis
    proof (cases "glob_claim env (glob_lockfile cfg entry) ?st1")
      case (Inl e)
      with dir unl f1 show ?thesis by (simp add: racer_step_def glob_candidate_def Let_def emit_def)
    next
      case (Inr p)
      obtain acquired st2 where p: "p = (acquired, st2)" by (cases p)
      show ?thesis
      proof (cases acquired)
        case False
        with dir unl f1 Inr p show ?thesis
          by (simp add: racer_step_def glob_candidate_def Let_def emit_def)
      next
        case True
        obtain c st3 where j: "glob_run_job env cfg home entry st2 = (c, st3)"
          by (cases "glob_run_job env cfg home entry st2")
        from glob_run_job_effect [OF j] have "c = Next \<or> (\<exists>e. c = Raise e)" by blast
        then show ?thesis
        proof
          assume "c = Next"
          with dir unl f1 Inr p True j show ?thesis
            by (simp add: racer_step_def glob_candidate_def Let_def emit_def)
        next
          assume "\<exists>e. c = Raise e"
          then obtain e where "c = Raise e" by blast
          with dir unl f1 Inr p True j show ?thesis
            by (simp add: racer_step_def glob_candidate_def Let_def emit_def)
        qed
      qed
    qed
  qed
qed

section \<open>Every launch runs the command vector\<close>

lemma only_cmd_emit:
  "only_cmd cfg (emit e st) = (only_cmd cfg st \<and> (\<forall>argv wd. e = Called argv wd \<longrightarrow> argv = cmd cfg))"
  by (auto simp: only_cmd_def)

lemma only_cmd_trace: "trace st' = trace st \<Longrightarrow> only_cmd cfg st' = only_cmd cfg st"
  by (simp add: only_cmd_def)

lemma only_cmd_updates:
  "only_cmd cfg (st\<lparr>files := f\<rparr>) = only_cmd cfg st"
  "only_cmd cfg (st\<lparr>cwd := w\<rparr>) = only_cmd cfg st"
  "only_cmd cfg (st\<lparr>ticks := k\<rparr>) = only_cmd cfg st"
  "only_cmd cfg (st\<lparr>keep_looping := b\<rparr>) = only_cmd cfg st"
  "only_cmd cfg (st\<lparr>processed_jobs := n\<rparr>) = only_cmd cfg st"
  by (simp_all add: only_cmd_def)

lemma os_chdir_trace: "os_chdir st s = Inr st' \<Longrightarrow> trace st' = trace st"
  by (auto simp: os_chdir_def split: option.splits node.splits)

lemma chdir_path_trace: "chdir_path st p = Inr st' \<Longrightarrow> trace st' = trace st"
  by (auto simp: chdir_path_def split: option.splits node.splits)

lemma open_w_trace: "open_w st s = Inr (g, st') \<Longrightarrow> trace st' = trace st"
  by (auto simp: open_w_def split: if_splits sum.splits)

lemma open_x_trace: "open_x st s c = Inr st' \<Longrightarrow> trace st' = trace st"
  by (auto simp: open_x_def split: if_splits sum.splits)

lemma subprocess_call_only:
  "subprocess_call env (cmd cfg) g h st = Inr st' \<Longrightarrow> only_cmd cfg st \<Longrightarrow> only_cmd cfg st'"
  by (auto simp: subprocess_call_def only_cmd_emit only_cmd_updates split: launch.splits)

lemma glob_claim_only:
  "glob_claim env lockfile st = Inr (b, st') \<Longrightarrow> only_cmd cfg st \<Longrightarrow> only_cmd cfg st'"
  by (auto simp: glob_claim_def only_cmd_emit split: sum.splits if_splits
           dest!: open_x_trace only_cmd_trace [where cfg = cfg])

lemma glob_evaluate_only:
  "glob_evaluate env cfg' st = (c, st') \<Longrightarrow> only_cmd cfg st \<Longrightarrow> only_cmd cfg st'"
  by (auto simp: glob_evaluate_def Let_def only_cmd_emit only_cmd_updates split: if_splits)

lemma regex_evaluate_only:
  "regex_evaluate env cfg' st = (c, st') \<Longrightarrow> only_cmd cfg st \<Longrightarrow> only_cmd cfg st'"
  by (auto simp: regex_evaluate_def Let_def only_cmd_emit only_cmd_updates split: if_splits)

lemma streams_call_only:
  assumes "only_cmd cfg st1" and "os_chdir st1 d = Inr st2"
    and "open_w st2 a = Inr (g, st3)" and "open_w st3 b = Inr (h, st4)"
  shows "only_cmd cfg st2" and "only_cmd cfg st3" and "only_cmd cfg st4"
    and "subprocess_call env (cmd cfg) g h st4 = Inr st5 \<longrightarrow> only_cmd cfg st5"
proof -
  show 2: "only_cmd cfg st2"
    using assms(1) only_cmd_trace [OF os_chdir_trace [OF assms(2)], of cfg] by simp
  show 3: "only_cmd cfg st3"
    using 2 only_cmd_trace [OF open_w_trace [OF assms(3)], of cfg] by simp
  show 4: "only_cmd cfg st4"
    using 3 only_cmd_trace [OF open_w_trace [OF assms(4)], of cfg] by simp
  show "subprocess_call env (cmd cfg) g h st4 = Inr st5 \<longrightarrow> only_cmd cfg st5"
    using 4 subprocess_call_only by blast
qed

lemma glob_run_job_only:
  assumes "glob_run_job env cfg home subdir st = (c, st')" and o: "only_cmd cfg st"
  shows "only_cmd cfg st'"
proof -
  have o1: "only_cmd cfg (emit (Acquired subdir) st)" using o by (simp add: only_cmd_emit)
  from assms(1) show ?thesis
  proof (cases rule: glob_run_job_elim)
    case (no_chdir e)
    with o1 show ?thesis by simp
  next
    case (no_out st2 e)
    with o1 only_cmd_trace [OF os_chdir_trace [OF no_out(1)], of cfg] show ?thesis by simp
  next
    case (no_err st2 g st3 e)
    with o1 only_cmd_trace [OF os_chdir_trace [OF no_err(1)], of cfg]
      only_cmd_trace [OF open_w_trace [OF no_err(2)], of cfg] show ?thesis by simp
  next
    case (no_launch st2 g st3 h st4 e)
    with streams_call_only [OF o1 no_launch(1) no_launch(2) no_launch(3)] show ?thesis by simp
  next
    case (no_return st2 g st3 h st4 st5 e)
    with streams_call_only(4) [OF o1 no_return(1) no_return(2) no_return(3), of env st5]
    show ?thesis by (simp add: only_cmd_updates)
  next
    case (finished st2 g st3 h st4 st5)
    from streams_call_only(4) [OF o1 finished(1) finished(2) finished(3), of env st5] finished(4)
    have "only_cmd cfg (st5\<lparr>processed_jobs := processed_jobs st5 + 1\<rparr>)"
      by (simp add: only_cmd_updates)
    with only_cmd_trace [OF chdir_path_trace [OF finished(5)], of cfg] show ?thesis by simp
  qed
qed

lemma regex_job_only:
  assumes "regex_job env cfg basepath subdir st = (c, st')" and o: "only_cmd cfg st"
  shows "only_cmd cfg st'"
proof -
  have o1: "only_cmd cfg (emit (Acquired subdir) st)" using o by (simp add: only_cmd_emit)
  from assms(1) show ?thesis
  proof (cases rule: regex_job_elim)
    case (no_chdir e)
    with o1 show ?thesis by simp
  next
    case (no_out st2 e)
    with o1 only_cmd_trace [OF os_chdir_trace [OF no_out(1)], of cfg] show ?thesis by simp
  next
    case (no_err st2 g st3 e)
    with o1 only_cmd_trace [OF os_chdir_trace [OF no_err(1)], of cfg]
      only_cmd_trace [OF open_w_trace [OF no_err(2)], of cfg] show ?thesis by simp
  next
    case (no_launch st2 g st3 h st4 e)
    with streams_call_only [OF o1 no_launch(1) no_launch(2) no_launch(3)] show ?thesis by simp
  next
    case (finished st2 g st3 h st4 st5)
    with streams_call_only(4) [OF o1 finished(1) finished(2) finished(3), of env st5]
    show ?thesis by (simp add: only_cmd_updates)
  qed
qed

lemma glob_candidate_only:
  assumes "glob_candidate env cfg home entry st = (c, st')" and o: "only_cmd cfg st"
  shows "only_cmd cfg st'"
proof (cases "os_path_isdir st entry \<and> \<not> os_path_isfile st (glob_lockfile cfg entry)")
  case False
  with assms show ?thesis
    by (auto simp: glob_candidate_def only_cmd_emit split: if_splits)
next
  case True
  let ?st1 = "(emit (Observed entry False) st)\<lparr>keep_looping := True\<rparr>"
  have o1: "only_cmd cfg ?st1" using o by (simp add: only_cmd_emit only_cmd_updates)
  show ?thesis
  proof (cases "glob_claim env (glob_lockfile cfg entry) ?st1")
    case (Inl e)
    with assms True have "st' = ?st1" by (simp add: glob_candidate_def Let_def)
    with o1 show ?thesis by simp
  next
    case (Inr r)
    obtain acquired st2 where r: "r = (acquired, st2)" by (cases r)
    have o2: "only_cmd cfg st2" using glob_claim_only [of env _ ?st1 acquired st2 cfg] Inr r o1 by simp
    show ?thesis
    proof (cases acquired)
      case False
      with assms True Inr r
      have "glob_evaluate env cfg st2 = (c, st')" by (simp add: glob_candidate_def Let_def)
      from glob_evaluate_only [OF this o2] show ?thesis .
    next
      case acq: True
      obtain c3 st3 where j: "glob_run_job env cfg home entry st2 = (c3, st3)"
        by (cases "glob_run_job env cfg home entry st2")
      have o3: "only_cmd cfg st3" by (rule glob_run_job_only [OF j o2])
      show ?thesis
      proof (cases "c3 = Next")
        case True
        with assms \<open>os_path_isdir st entry \<and> \<not> os_path_isfile st (glob_lockfile cfg entry)\<close> Inr r acq j
        have "glob_evaluate env cfg st3 = (c, st')" by (simp add: glob_candidate_def Let_def)
        from glob_evaluate_only [OF this o3] show ?thesis .
      next
        case False
        with assms \<open>os_path_isdir st entry \<and> \<not> os_path_isfile st (glob_lockfile cfg entry)\<close> Inr r acq j
        have "st' = st3" by (cases c3) (simp_all add: glob_candidate_def Let_def)
        with o3 show ?thesis by simp
      qed
    qed
  qed
qed

lemma glob_entries_only:
  "glob_entries env cfg home entries st = (c, st') \<Longrightarrow> only_cmd cfg st \<Longrightarrow> only_cmd cfg st'"
proof (induction entries arbitrary: st)
  case Nil
  then show ?case by simp
next
  case (Cons entry rest)
  obtain c1 st1 where s: "glob_candidate env cfg home entry st = (c1, st1)"
    by (cases "glob_candidate env cfg home entry st")
  have o1: "only_cmd cfg st1" by (rule glob_candidate_only [OF s Cons.prems(2)])
  show ?case
  proof (cases "c1 = Next")
    case True
    with Cons.prems s have "glob_entries env cfg home rest st1 = (c, st')" by simp
    from Cons.IH [OF this o1] show ?thesis .
  next
    case False
    with Cons.prems s have "st' = st1" by (cases c1) simp_all
    with o1 show ?thesis by simp
  qed
qed

lemma glob_patterns_only:
  "glob_patterns env cfg home i pats st = (c, st') \<Longrightarrow> only_cmd cfg st \<Longrightarrow> only_cmd cfg st'"
proof (induction pats arbitrary: st i)
  case Nil
  then show ?case by simp
next
  case (Cons pattern rest)
  let ?st1 = "emit (SearchingPattern i pattern) st"
  have o1: "only_cmd cfg ?st1" using Cons.prems(2) by (simp add: only_cmd_emit)
  obtain c2 st2 where
    s: "glob_entries env cfg home (glob env (files ?st1) (cwd ?st1) pattern) ?st1 = (c2, st2)"
    by (cases "glob_entries env cfg home (glob env (files ?st1) (cwd ?st1) pattern) ?st1")
  have o2: "only_cmd cfg st2" by (rule glob_entries_only [OF s o1])
  show ?case
  proof (cases "c2 = Next")
    case True
    with Cons.prems s have "glob_patterns env cfg home (Suc i) rest st2 = (c, st')"
      by (simp add: Let_def)
    from Cons.IH [OF this o2] show ?thesis .
  next
    case False
    with Cons.prems s have "st' = st2" by (cases c2) (simp_all add: Let_def)
    with o2 show ?thesis by simp
  qed
qed

lemma glob_main_loop_only:
  "glob_main_loop fuel env cfg home st = Some (c, st') \<Longrightarrow> only_cmd cfg st \<Longrightarrow> only_cmd cfg st'"
proof (induction fuel arbitrary: st)
  case 0
  then show ?case by simp
next
  case (Suc n)
  show ?case
  proof (cases "keep_looping st")
    case False
    with Suc.prems show ?thesis by (auto simp: only_cmd_emit)
  next
    case True
    let ?st0 = "emit (Searching (length (patterns cfg))) (st\<lparr>keep_looping := False\<rparr>)"
    have o0: "only_cmd cfg ?st0" using Suc.prems(2) by (simp add: only_cmd_emit only_cmd_updates)
    obtain c1 st1 where p: "glob_pass env cfg home st = (c1, st1)"
      by (cases "glob_pass env cfg home st")
    then have "glob_patterns env cfg home 0 (patterns cfg) ?st0 = (c1, st1)"
      by (simp add: glob_pass_def)
    from glob_patterns_only [OF this o0] have o1: "only_cmd cfg st1" .
    show ?thesis
    proof (cases "c1 = Next")
      case n: True
      with Suc.prems True p have "glob_main_loop n env cfg home st1 = Some (c, st')" by simp
      from Suc.IH [OF this o1] show ?thesis .
    next
      case False
      with Suc.prems True p have "st' = st1" by (cases c1) simp_all
      with o1 show ?thesis by simp
    qed
  qed
qed


lemma regex_try_only:
  assumes t: "regex_try env cfg homepath basepath subdir st = (c, st')" and o: "only_cmd cfg st"
  shows "only_cmd cfg st'"
proof -
  from t obtain c1 st1 c2 s2 where
    a: "(case open_x st (regex_lockfile basepath subdir) (''Reserved by worker: '' @ worker_id env) of
        Inl e \<Rightarrow> (Raise e, st)
      | Inr st0 \<Rightarrow> regex_job env cfg basepath subdir st0) = (c1, st1)" and
    b: "(if c1 = Raise FileExistsError
      then (Next, emit (CouldNotLock (regex_lockfile basepath subdir)) st1)
      else (c1, st1)) = (c2, s2)" and
    d: "(case chdir_path s2 homepath of
        Inl e \<Rightarrow> (Raise e, s2)
      | Inr st3 \<Rightarrow> (c2, st3)) = (c, st')"
    by (rule regex_try_stages)
  have o1: "only_cmd cfg st1"
  proof (cases "open_x st (regex_lockfile basepath subdir) (''Reserved by worker: '' @ worker_id env)")
    case (Inl e)
    with a o show ?thesis by simp
  next
    case (Inr st0)
    with a have j: "regex_job env cfg basepath subdir st0 = (c1, st1)" by simp
    have "only_cmd cfg st0" using o only_cmd_trace [OF open_x_trace [OF Inr], of cfg] by simp
    from regex_job_only [OF j this] show ?thesis .
  qed
  have o2: "only_cmd cfg s2"
    using b o1 by (auto simp: only_cmd_emit split: if_splits)
  show ?thesis
  proof (cases "chdir_path s2 homepath")
    case (Inl e)
    with d o2 show ?thesis by auto
  next
    case (Inr st3)
    with d o2 only_cmd_trace [OF chdir_path_trace [OF Inr], of cfg] show ?thesis by auto
  qed
qed

lemma regex_candidate_only:
  assumes "regex_candidate env cfg homepath basepath pattern subdir st = (c, st')"
    and o: "only_cmd cfg st"
  shows "only_cmd cfg st'"
proof (cases "os_path_isdir st subdir \<and> re_search env pattern subdir = Some True")
  case False
  with regex_candidate_skipped [OF assms(1)] o show ?thesis by simp
next
  case cand: True
  show ?thesis
  proof (cases "os_path_isfile st (regex_lockfile basepath subdir)")
    case True
    with assms cand regex_candidate_locked [of st subdir env pattern basepath cfg homepath]
    show ?thesis by (auto simp: only_cmd_emit)
  next
    case False
    let ?st1 = "(emit (Observed subdir False) st)\<lparr>keep_looping := True\<rparr>"
    have o1: "only_cmd cfg ?st1" using o by (simp add: only_cmd_emit only_cmd_updates)
    obtain c2 st2 where t: "regex_try env cfg homepath basepath subdir ?st1 = (c2, st2)"
      by (cases "regex_try env cfg homepath basepath subdir ?st1")
    have o2: "only_cmd cfg st2" by (rule regex_try_only [OF t o1])
    show ?thesis
    proof (cases "c2 = Next")
      case True
      with assms cand False t have "regex_evaluate env cfg st2 = (c, st')"
        by (simp add: regex_candidate_def Let_def)
      from regex_evaluate_only [OF this o2] show ?thesis .
    next
      case nn: False
      with assms cand False t have "st' = st2"
        by (cases c2) (simp_all add: regex_candidate_def Let_def)
      with o2 show ?thesis by simp
    qed
  qed
qed

lemma regex_subdirs_only:
  "regex_subdirs env cfg homepath basepath pattern names st = (c, st') \<Longrightarrow>
   only_cmd cfg st \<Longrightarrow> only_cmd cfg st'"
proof (induction names arbitrary: st)
  case Nil
  then show ?case by simp
next
  case (Cons subdir rest)
  obtain c1 st1 where s: "regex_candidate env cfg homepath basepath pattern subdir st = (c1, st1)"
    by (cases "regex_candidate env cfg homepath basepath pattern subdir st")
  have o1: "only_cmd cfg st1" by (rule regex_candidate_only [OF s Cons.prems(2)])
  show ?case
  proof (cases "c1 = Next")
    case True
    with Cons.prems s have "regex_subdirs env cfg homepath basepath pattern rest st1 = (c, st')"
      by simp
    from Cons.IH [OF this o1] show ?thesis .
  next
    case False
    with Cons.prems s have "st' = st1" by (cases c1) simp_all
    with o1 show ?thesis by simp
  qed
qed

lemma regex_basepaths_only:
  "regex_basepaths env cfg homepath i bps st = (c, st') \<Longrightarrow>
   only_cmd cfg st \<Longrightarrow> only_cmd cfg st'"
proof (induction bps arbitrary: st i)
  case Nil
  then show ?case by simp
next
  case (Cons bp rest)
  obtain basepath pattern where bp: "bp = (basepath, pattern)" by (cases bp)
  let ?st1 = "emit (SearchingBasepath i basepath pattern) st"
  have o1: "only_cmd cfg ?st1" using Cons.prems(2) by (simp add: only_cmd_emit)
  show ?case
  proof (cases "os_listdir ?st1 basepath")
    case (Inl e)
    with Cons.prems bp have "st' = ?st1" by (simp add: Let_def)
    with o1 show ?thesis by simp
  next
    case (Inr names)
    obtain c2 st2 where
      s: "regex_subdirs env cfg homepath basepath pattern names ?st1 = (c2, st2)"
      by (cases "regex_subdirs env cfg homepath basepath pattern names ?st1")
    have o2: "only_cmd cfg st2" by (rule regex_subdirs_only [OF s o1])
    show ?thesis
    proof (cases "c2 = Next")
      case True
      with Cons.prems bp Inr s have "regex_basepaths env cfg homepath (Suc i) rest st2 = (c, st')"
        by (simp add: Let_def)
      from Cons.IH [OF this o2] show ?thesis .
    next
      case False
      with Cons.prems bp Inr s have "st' = st2" by (cases c2) (simp_all add: Let_def)
      with o2 show ?thesis by simp
    qed
  qed
qed

lemma regex_main_loop_only:
  "regex_main_loop fuel env cfg home st = Some (c, st') \<Longrightarrow> only_cmd cfg st \<Longrightarrow> only_cmd cfg st'"
proof (induction fuel arbitrary: st)
  case 0
  then show ?case by simp
next
  case (Suc n)
  show ?case
  proof (cases "keep_looping st")
    case False
    with Suc.prems show ?thesis by (auto simp: only_cmd_emit)
  next
    case True
    let ?st0 = "emit (Searching (length (basepaths cfg))) (st\<lparr>keep_looping := False\<rparr>)"
    have o0: "only_cmd cfg ?st0" using Suc.prems(2) by (simp add: only_cmd_emit only_cmd_updates)
    obtain c1 st1 where p: "regex_pass env cfg home st = (c1, st1)"
      by (cases "regex_pass env cfg home st")
    then have "regex_basepaths env cfg home 0 (zip (basepaths cfg) (patterns cfg)) ?st0 = (c1, st1)"
      by (simp add: regex_pass_def)
    from regex_basepaths_only [OF this o0] have o1: "only_cmd cfg st1" .
    show ?thesis
    proof (cases "c1 = Next")
      case n: True
      with Suc.prems True p have "regex_main_loop n env cfg home st1 = Some (c, st')" by simp
      from Suc.IH [OF this o1] show ?thesis .
    next
      case False
      with Suc.prems True p have "st' = st1" by (cases c1) simp_all
      with o1 show ?thesis by simp
    qed
  qed
qed

lemma only_cmd_started: "only_cmd cfg (started env (initial_state fs wd))"
  by (simp add: only_cmd_def started_def initial_state_def)

lemma glob_worker_calls:
  assumes w: "glob_worker fuel env argv fs wd = Some (outs, c, st)"
    and called: "Called args d \<in> set (trace st)"
  shows "\<exists>cfg. glob_parse env argv = Inr cfg \<and> args = cmd cfg"
proof (cases "glob_parse env argv")
  case (Inl h)
  with w called show ?thesis
    by (cases h) (auto simp: glob_worker_def initial_state_def)
next
  case (Inr cfg)
  with w have "glob_main_loop fuel env cfg wd (started env (initial_state fs wd)) = Some (c, st)"
    by (auto simp: glob_worker_def split: option.splits)
  from glob_main_loop_only [OF this only_cmd_started] called have "args = cmd cfg"
    by (auto simp: only_cmd_def)
  with Inr show ?thesis by simp
qed

lemma regex_worker_calls:
  assumes w: "regex_worker fuel env argv fs wd = Some (outs, c, st)"
    and called: "Called args d \<in> set (trace st)"
  shows "\<exists>cfg. parse env argv = Inr cfg \<and> args = cmd cfg"
proof (cases "parse env argv")
  case (Inl h)
  with w called show ?thesis
    by (cases h) (auto simp: regex_worker_def initial_state_def)
next
  case (Inr cfg)
  show ?thesis
  proof (cases "length (basepaths cfg) = length (patterns cfg)")
    case False
    with w Inr called show ?thesis
      by (auto simp: regex_worker_def Let_def started_def initial_state_def)
  next
    case True
    with w Inr have
      "regex_main_loop fuel env cfg wd (started env (initial_state fs wd)) = Some (c, st)"
      by (auto simp: regex_worker_def Let_def split: option.splits)
    from regex_main_loop_only [OF this only_cmd_started] called have "args = cmd cfg"
      by (auto simp: only_cmd_def)
    with Inr show ?thesis by simp
  qed
qed

section \<open>Concrete runs of the two scripts\<close>

lemma glob_parse_echo:
  "glob_parse env0 [''-p'', ''job*'', ''-c'', ''echo  done''] = Inr glob_cfg_echo"
  by code_simp

lemma parse_echo:
  "parse env0 [''-b'', ''/home'', ''-p'', ''job'', ''-c'', ''echo  done''] = Inr regex_cfg_echo"
  by code_simp

lemma glob_run_echo:
  "(case glob_worker 3 env0 [''-p'', ''job*'', ''-c'', ''echo done'', ''--maxjobs=1''] fs5 [''home''] of
      None \<Rightarrow> False
    | Some (outs, c, st) \<Rightarrow> List.member (trace st) (Called [''echo'', ''done''] [''home'', ''job1'']))"
  by code_simp

lemma regex_run_echo:
  "(case regex_worker 3 env0 [''-b'', ''/home'', ''-p'', ''job1'', ''-c'', ''echo done''] fs5 [''home''] of
      None \<Rightarrow> False
    | Some (outs, c, st) \<Rightarrow> List.member (trace st) (Called [''echo'', ''done''] [''home'', ''job1'']))"
  by code_simp

section \<open>Claims\<close>

text \<open>
  C10. The \<open>-c\<close>/\<open>--cmd\<close> option text becomes the command vector by \<open>a.split(' ')\<close>
  alone: no piece of the split contains a space; every single space cuts, whatever
  stands around it (quotes and backslashes are ordinary characters), so two spaces in a
  row give an empty argument; in both scripts the command vector that start-up
  leaves is the concatenation of these splits of the \<open>-c\<close>/\<open>--cmd\<close> values, hence has no
  argument with a space in it; and whatever way a run of either script ends, every
  command it has launched was launched with exactly this vector, so that no argument
  with a space in it has been passed to the job command.
\<close>

theorem cmd_split_on_single_spaces:
  "(\<forall>tok \<in> set (str_split CHR '' '' a). CHR '' '' \<notin> set tok) \<and>
   str_split CHR '' '' (x @ '' '' @ y) = str_split CHR '' '' x @ str_split CHR '' '' y \<and>
   str_split CHR '' '' (x @ ''  '' @ y) = str_split CHR '' '' x @ [[]] @ str_split CHR '' '' y \<and>
   (glob_parse env argv = Inr cfg \<longrightarrow>
      (\<exists>options arguments.
          getopt argv ''vh:p:c:'' glob_longopts = Inr (options, arguments) \<and>
          cmd cfg = concat (map (str_split CHR '' '') (cmd_values options))) \<and>
      (\<forall>tok \<in> set (cmd cfg). CHR '' '' \<notin> set tok)) \<and>
   (parse env argv' = Inr cfg' \<longrightarrow>
      (\<exists>options arguments.
          getopt argv' ''vhb:p:c:'' regex_longopts = Inr (options, arguments) \<and>
          cmd cfg' = concat (map (str_split CHR '' '') (cmd_values options))) \<and>
      (\<forall>tok \<in> set (cmd cfg'). CHR '' '' \<notin> set tok)) \<and>
   (glob_worker fuel env argv fs wd = Some (outs, c, st) \<longrightarrow>
      (\<forall>args d. Called args d \<in> set (trace st) \<longrightarrow>
         (\<exists>cfg. glob_parse env argv = Inr cfg \<and> args = cmd cfg) \<and>
         (\<forall>tok \<in> set args. CHR '' '' \<notin> set tok))) \<and>
   (regex_worker fuel' env argv' fs' wd' = Some (outs', c', st') \<longrightarrow>
      (\<forall>args d. Called args d \<in> set (trace st') \<longrightarrow>
         (\<exists>cfg. parse env argv' = Inr cfg \<and> args = cmd cfg) \<and>
         (\<forall>tok \<in> set args. CHR '' '' \<notin> set tok)))"
proof (intro conjI impI allI)
  show "\<forall>tok \<in> set (str_split CHR '' '' a). CHR '' '' \<notin> set tok"
    using str_split_no_sep by blast
  show "str_split CHR '' '' (x @ '' '' @ y) = str_split CHR '' '' x @ str_split CHR '' '' y"
    using str_split_append [of "CHR '' ''" x y] by simp
  show "str_split CHR '' '' (x @ ''  '' @ y) = str_split CHR '' '' x @ [[]] @ str_split CHR '' '' y"
    using str_split_append [of "CHR '' ''" x "CHR '' '' # y"] by simp
next
  assume p: "glob_parse env argv = Inr cfg"
  show "\<exists>options arguments.
          getopt argv ''vh:p:c:'' glob_longopts = Inr (options, arguments) \<and>
          cmd cfg = concat (map (str_split CHR '' '') (cmd_values options))"
    by (rule glob_parse_cmd [OF p])
  then show "\<forall>tok \<in> set (cmd cfg). CHR '' '' \<notin> set tok"
    using concat_split_no_space by metis
next
  assume p: "parse env argv' = Inr cfg'"
  show "\<exists>options arguments.
          getopt argv' ''vhb:p:c:'' regex_longopts = Inr (options, arguments) \<and>
          cmd cfg' = concat (map (str_split CHR '' '') (cmd_values options))"
    by (rule parse_cmd [OF p])
  then show "\<forall>tok \<in> set (cmd cfg'). CHR '' '' \<notin> set tok"
    using concat_split_no_space by metis
next
  fix args d
  assume w: "glob_worker fuel env argv fs wd = Some (outs, c, st)"
    and called: "Called args d \<in> set (trace st)"
  show v: "\<exists>cfg. glob_parse env argv = Inr cfg \<and> args = cmd cfg"
    by (rule glob_worker_calls [OF w called])
  then obtain k where k: "glob_parse env argv = Inr k" and a: "args = cmd k" by blast
  from glob_parse_cmd [OF k] a show "\<forall>tok \<in> set args. CHR '' '' \<notin> set tok"
    using concat_split_no_space by metis
next
  fix args d
  assume w: "regex_worker fuel' env argv' fs' wd' = Some (outs', c', st')"
    and called: "Called args d \<in> set (trace st')"
  show v: "\<exists>cfg. parse env argv' = Inr cfg \<and> args = cmd cfg"
    by (rule regex_worker_calls [OF w called])
  then obtain k where k: "parse env argv' = Inr k" and a: "args = cmd k" by blast
  from parse_cmd [OF k] a show "\<forall>tok \<in> set args. CHR '' '' \<notin> set tok"
    using concat_split_no_space by metis
qed

theorem cmd_split_on_single_spaces_witness:
  "glob_parse env0 [''-p'', ''job*'', ''-c'', ''echo  done''] = Inr glob_cfg_echo \<and>
   parse env0 [''-b'', ''/home'', ''-p'', ''job'', ''-c'', ''echo  done''] = Inr regex_cfg_echo \<and>
   list_all (\<lambda>tok. CHR '' '' \<notin> set tok) (str_split CHR '' '' ''echo  done'') \<and>
   list_all (\<lambda>tok. CHR '' '' \<notin> set tok) (cmd glob_cfg_echo) \<and>
   list_all (\<lambda>tok. CHR '' '' \<notin> set tok) (cmd regex_cfg_echo) \<and>
   str_split CHR '' '' (''echo'' @ ''  '' @ ''done'') =
     str_split CHR '' '' ''echo'' @ [[]] @ str_split CHR '' '' ''done'' \<and>
   (case glob_worker 3 env0 [''-p'', ''job*'', ''-c'', ''echo done'', ''--maxjobs=1''] fs5 [''home''] of
      None \<Rightarrow> False
    | Some (outs, c, st) \<Rightarrow>
        List.member (trace st) (Called [''echo'', ''done''] [''home'', ''job1'']) \<and>
        list_all (\<lambda>e. case e of Called args d \<Rightarrow> list_all (\<lambda>tok. CHR '' '' \<notin> set tok) args
                       | _ \<Rightarrow> True) (trace st)) \<and>
   (case regex_worker 3 env0 [''-b'', ''/home'', ''-p'', ''job1'', ''-c'', ''echo done''] fs5 [''home''] of
      None \<Rightarrow> False
    | Some (outs, c, st) \<Rightarrow>
        List.member (trace st) (Called [''echo'', ''done''] [''home'', ''job1'']) \<and>
        list_all (\<lambda>e. case e of Called args d \<Rightarrow> list_all (\<lambda>tok. CHR '' '' \<notin> set tok) args
                       | _ \<Rightarrow> True) (trace st))"
proof -
  note t = cmd_split_on_single_spaces
    [where a = "''echo  done''" and x = "''echo''" and y = "''done''" and env = env0]
  have first: "glob_parse env0 [''-p'', ''job*'', ''-c'', ''echo  done''] = Inr glob_cfg_echo \<and>
   parse env0 [''-b'', ''/home'', ''-p'', ''job'', ''-c'', ''echo  done''] = Inr regex_cfg_echo \<and>
   list_all (\<lambda>tok. CHR '' '' \<notin> set tok) (str_split CHR '' '' ''echo  done'') \<and>
   list_all (\<lambda>tok. CHR '' '' \<notin> set tok) (cmd glob_cfg_echo) \<and>
   list_all (\<lambda>tok. CHR '' '' \<notin> set tok) (cmd regex_cfg_echo) \<and>
   str_split CHR '' '' (''echo'' @ ''  '' @ ''done'') =
     str_split CHR '' '' ''echo'' @ [[]] @ str_split CHR '' '' ''done''"
    using t [where argv = "[''-p'', ''job*'', ''-c'', ''echo  done'']" and cfg = glob_cfg_echo
        and argv' = "[''-b'', ''/home'', ''-p'', ''job'', ''-c'', ''echo  done'']"
        and cfg' = regex_cfg_echo] glob_parse_echo parse_echo
    unfolding list_all_iff by blast
  obtain o1 c1 s1 where
    g: "glob_worker 3 env0 [''-p'', ''job*'', ''-c'', ''echo done'', ''--maxjobs=1''] fs5 [''home'']
          = Some (o1, c1, s1)"
    and gm: "List.member (trace s1) (Called [''echo'', ''done''] [''home'', ''job1''])"
    using glob_run_echo by (auto split: option.splits)
  obtain o2 c2 s2 where
    r: "regex_worker 3 env0 [''-b'', ''/home'', ''-p'', ''job1'', ''-c'', ''echo done''] fs5 [''home'']
          = Some (o2, c2, s2)"
    and rm: "List.member (trace s2) (Called [''echo'', ''done''] [''home'', ''job1''])"
    using regex_run_echo by (auto split: option.splits)
  have "\<forall>args d. Called args d \<in> set (trace s1) \<longrightarrow> (\<forall>tok \<in> set args. CHR '' '' \<notin> set tok)"
    using t [where argv = "[''-p'', ''job*'', ''-c'', ''echo done'', ''--maxjobs=1'']"
        and fuel = 3 and fs = fs5 and wd = "[''home'']" and outs = o1 and c = c1 and st = s1] g
    by blast
  then have ga: "list_all (\<lambda>e. case e of Called args d \<Rightarrow> list_all (\<lambda>tok. CHR '' '' \<notin> set tok) args
                       | _ \<Rightarrow> True) (trace s1)"
    unfolding list_all_iff by (auto split: event.splits)
  have "\<forall>args d. Called args d \<in> set (trace s2) \<longrightarrow> (\<forall>tok \<in> set args. CHR '' '' \<notin> set tok)"
    using t [where argv' = "[''-b'', ''/home'', ''-p'', ''job1'', ''-c'', ''echo done'']"
        and fuel' = 3 and fs' = fs5 and wd' = "[''home'']" and outs' = o2 and c' = c2 and st' = s2] r
    by blast
  then have ra: "list_all (\<lambda>e. case e of Called args d \<Rightarrow> list_all (\<lambda>tok. CHR '' '' \<notin> set tok) args
                       | _ \<Rightarrow> True) (trace s2)"
    unfolding list_all_iff by (auto split: event.splits)
  from first g gm ga r rm ra show ?thesis by simp
qed





text \<open>
  C2. The regex script (\<open>src/worker.py\<close>) does not enforce a job limit. With
  \<open>--maxjobs=2\<close> and five unclaimed job directories it runs all five jobs: \<open>parse\<close> puts
  the option's text into a local name and \<open>max_jobs\<close> stays \<open>sys.maxsize\<close>. And were
  \<open>max_jobs\<close> 2, the \<open>break\<close> of line 185 would leave only the loop over the listing: the
  \<open>while\<close> loop goes on and all five jobs are run just the same.
\<close>

theorem regex_max_jobs_not_enforced:
  "map_option (\<lambda>(outs, c, st). (c, processed_jobs st))
     (regex_worker 3 env0
        [''-b'', ''/home'', ''-p'', ''job'', ''-c'', ''true'', ''--maxjobs=2''] fs5 [''home''])
     = Some (Exit 0, 5) \<and>
   map_option (\<lambda>(c, st). (c, processed_jobs st))
     (regex_main_loop 6 env0 (regex_cfg_true\<lparr>max_jobs := 2\<rparr>) [''home'']
        (started env0 (initial_state fs5 [''home''])))
     = Some (Exit 0, 5)"
  by code_simp

text \<open>The glob script on the same input stops after two jobs, with status 0.\<close>

lemma glob_max_jobs_enforced:
  "map_option (\<lambda>(outs, c, st). (c, processed_jobs st))
     (glob_worker 3 env0 [''-p'', ''job*'', ''-c'', ''true'', ''--maxjobs=2''] fs5 [''home''])
     = Some (Exit 0, 2)"
  by code_simp

text \<open>
  C8. The regex script accepts \<open>--maxjobs=abc --maxhours=soon\<close>: the texts are never
  converted, start-up succeeds with both limits at their defaults, and the run goes on
  to claim and run all five jobs and ends with status 0.
\<close>

theorem regex_ignores_malformed_limits:
  "dec_int ''abc'' = None \<and>
   parse env0 [''-b'', ''/home'', ''-p'', ''job'', ''-c'', ''true'', ''--maxjobs=abc'', ''--maxhours=soon'']
     = Inr regex_cfg_true \<and>
   map_option (\<lambda>(outs, c, st). (outs, c, processed_jobs st))
     (regex_worker 3 env0
        [''-b'', ''/home'', ''-p'', ''job'', ''-c'', ''true'', ''--maxjobs=abc'', ''--maxhours=soon'']
        fs5 [''home''])
     = Some ([], Exit 0, 5)"
  by code_simp

text \<open>
  The glob script converts the limits while it reads the options: a malformed one is an
  uncaught \<open>ValueError\<close>, before anything is logged or scanned.
\<close>

lemma glob_rejects_malformed_limits:
  "glob_worker 3 env0 [''-p'', ''job*'', ''-c'', ''true'', ''--maxjobs=abc''] fs5 [''home'']
     = Some ([], Raise ValueError, initial_state fs5 [''home'']) \<and>
   glob_worker 3 env0 [''-p'', ''job*'', ''-c'', ''true'', ''--maxhours=soon''] fs5 [''home'']
     = Some ([], Raise ValueError, initial_state fs5 [''home''])"
  by code_simp

text \<open>
  C9. In the glob script the short option string is \<open>vh:p:c:\<close>, so \<open>-h\<close> takes an
  argument: the command line \<open>-h\<close> alone makes getopt raise, nothing is printed and the
  process ends with status 1.
\<close>

theorem glob_help_flag_needs_argument:
  "getopt [''-h''] ''vh:p:c:'' glob_longopts = Inl GetoptError \<and>
   glob_worker 1 env0 [''-h''] fs5 [''home'']
     = Some ([], Raise GetoptError, initial_state fs5 [''home'']) \<and>
   exit_status (Raise GetoptError) = 1"
  by code_simp

text \<open>The other spellings, and the regex script, print and end with status 0.\<close>

lemma help_and_version_elsewhere:
  "glob_worker 1 env0 [''--help''] fs5 [''home'']
     = Some ([Stdout Version, Stdout Usage], Exit 0, initial_state fs5 [''home'']) \<and>
   glob_worker 1 env0 [''-v''] fs5 [''home'']
     = Some ([Stdout Version], Exit 0, initial_state fs5 [''home'']) \<and>
   glob_worker 1 env0 [''--version''] fs5 [''home'']
     = Some ([Stdout Version], Exit 0, initial_state fs5 [''home'']) \<and>
   regex_worker 1 env0 [''-h''] fs5 [''home'']
     = Some ([Stdout Usage], Exit 0, initial_state fs5 [''home'']) \<and>
   regex_worker 1 env0 [''--help''] fs5 [''home'']
     = Some ([Stdout Usage], Exit 0, initial_state fs5 [''home'']) \<and>
   regex_worker 1 env0 [''-v''] fs5 [''home'']
     = Some ([Stdout Version], Exit 0, initial_state fs5 [''home''])"
  by code_simp

text \<open>
  C4. In the regex script the directory test is \<open>os.path.isdir(subdir)\<close> on the bare
  name from the listing, so it is made in the working directory, not under the base
  path. Started in \<open>/home\<close> with base path \<open>/jobs\<close>: \<open>/jobs/job1\<close> exists, is a
  directory, is a direct child of the base path, matches the pattern and has no lock
  marker, and the pass sees no candidate at all; the run ends with nothing done.
\<close>

theorem regex_directory_test_in_cwd:
  "os_listdir (initial_state fs_jobs [''home'']) ''/jobs'' = Inr [''job1''] \<and>
   os_path_isdir (initial_state fs_jobs [''home'']) ''/jobs/job1'' \<and>
   re_search env0 ''job'' ''job1'' = Some True \<and>
   os_path_isfile (initial_state fs_jobs [''home'']) (regex_lockfile ''/jobs'' ''job1'') = False \<and>
   os_path_isdir (initial_state fs_jobs [''home'']) ''job1'' = False \<and>
   map_option (\<lambda>(outs, c, st). (c, processed_jobs st, files st, trace st))
     (regex_worker 3 env0 [''-b'', ''/jobs'', ''-p'', ''job'', ''-c'', ''true''] fs_jobs [''home''])
     = Some (Exit 0, 0, fs_jobs,
             [WorkerId ''w1'', WorkingDirectory [''home''], Searching 1,
              SearchingBasepath 0 ''/jobs'' ''job'', Done])"
  by code_simp

text \<open>
  C5. In the glob script the way back (\<open>os.chdir(cwd)\<close>, line 194) is on the normal path
  only: when the command cannot be launched, or when an output stream cannot be opened,
  the exception passes it by and the process ends in the job directory.
\<close>

theorem glob_cwd_not_restored_on_error:
  "map_option (\<lambda>(outs, c, st). (c, cwd st))
     (glob_worker 3 env0 [''-p'', ''job*'', ''-c'', ''nosuch''] fs5 [''home''])
     = Some (Raise FileNotFoundError, [''home'', ''job1'']) \<and>
   map_option (\<lambda>(outs, c, st). (c, cwd st))
     (glob_worker 3 env0 [''-p'', ''job*'', ''-c'', ''true''] fs_blocked [''home''])
     = Some (Raise IsADirectoryError, [''home'', ''job1''])"
  by code_simp

text \<open>
  The regex script has the \<open>finally\<close> clause: whatever the \<open>try\<close> statement does, the
  working directory afterwards is the home path, as long as that is still a directory
  (and files are only ever added).
\<close>

lemma regex_cwd_restored_on_error:
  "map_option (\<lambda>(outs, c, st). (c, cwd st))
     (regex_worker 3 env0 [''-b'', ''/home'', ''-p'', ''job'', ''-c'', ''nosuch''] fs5 [''home''])
     = Some (Raise FileNotFoundError, [''home'']) \<and>
   map_option (\<lambda>(outs, c, st). (c, cwd st))
     (regex_worker 3 env0 [''-b'', ''/home'', ''-p'', ''job'', ''-c'', ''true''] fs_blocked [''home''])
     = Some (Raise IsADirectoryError, [''home''])"
  by code_simp

text \<open>
  C6, as the claim states it, fails: with a command that cannot be launched, both
  scripts end with the uncaught \<open>FileNotFoundError\<close> (status 1) at the first job they
  claim, the job counter still 0, and the job's \<open>.err\<close> file empty.
\<close>

theorem launch_failure_ends_worker:
  "map_option (\<lambda>(outs, c, st).
       (c, exit_status c, processed_jobs st, lookup (files st) [''home'', ''job1'', ''worker.err'']))
     (glob_worker 3 env0 [''-p'', ''job*'', ''-c'', ''nosuch''] fs5 [''home''])
     = Some (Raise FileNotFoundError, 1, 0, Some (File [])) \<and>
   map_option (\<lambda>(outs, c, st).
       (c, exit_status c, processed_jobs st, lookup (files st) [''home'', ''job1'', ''worker.err'']))
     (regex_worker 3 env0 [''-b'', ''/home'', ''-p'', ''job'', ''-c'', ''nosuch''] fs5 [''home''])
     = Some (Raise FileNotFoundError, 1, 0, Some (File []))"
  by code_simp

text \<open>
  C6, amended. For every claimed job whose command cannot be launched at all, the error
  that \<open>subprocess.call\<close> raises is caught by neither script (the regex script's handler
  takes \<open>FileExistsError\<close> only): the candidate ends in an uncaught exception, which
  also ends the loop over the remaining candidates and gives the process status 1; the
  job counter is not incremented; and the lock marker stays, so the job is not taken up
  again.
\<close>

theorem launch_failure_is_uncaught:
  "((\<forall>wd. call env (cmd cfg) wd = CannotLaunch e) \<and>
    os_path_isdir st entry \<and> \<not> os_path_isfile st (glob_lockfile cfg entry) \<and>
    (\<exists>st2. glob_claim env (glob_lockfile cfg entry)
             ((emit (Observed entry False) st)\<lparr>keep_looping := True\<rparr>) = Inr (True, st2)) \<longrightarrow>
    (\<exists>e' st'. glob_candidate env cfg home entry st = (Raise e', st') \<and>
       glob_entries env cfg home (entry # rest) st = (Raise e', st') \<and>
       exit_status (Raise e') = 1 \<and>
       processed_jobs st' = processed_jobs st \<and>
       lookup (files st') (resolve (cwd st) (glob_lockfile cfg entry)) \<noteq> None)) \<and>
   ((\<forall>wd. call env (cmd cfg) wd = CannotLaunch e) \<and> e \<noteq> FileExistsError \<and>
    os_path_isdir st entry \<and> re_search env pattern entry = Some True \<and>
    \<not> os_path_isfile st (regex_lockfile basepath entry) \<and>
    (\<exists>st2. open_x ((emit (Observed entry False) st)\<lparr>keep_looping := True\<rparr>)
             (regex_lockfile basepath entry)
             (''Reserved by worker: '' @ worker_id env) = Inr st2) \<longrightarrow>
    (\<exists>e' st'. regex_candidate env cfg home basepath pattern entry st = (Raise e', st') \<and>
       regex_subdirs env cfg home basepath pattern (entry # rest) st = (Raise e', st') \<and>
       exit_status (Raise e') = 1 \<and>
       processed_jobs st' = processed_jobs st \<and>
       lookup (files st') (resolve (cwd st) (regex_lockfile basepath entry)) \<noteq> None))"
proof -
  have g: "(\<forall>wd. call env (cmd cfg) wd = CannotLaunch e) \<and>
    os_path_isdir st entry \<and> \<not> os_path_isfile st (glob_lockfile cfg entry) \<and>
    (\<exists>st2. glob_claim env (glob_lockfile cfg entry)
             ((emit (Observed entry False) st)\<lparr>keep_looping := True\<rparr>) = Inr (True, st2)) \<longrightarrow>
    (\<exists>e' st'. glob_candidate env cfg home entry st = (Raise e', st') \<and>
       glob_entries env cfg home (entry # rest) st = (Raise e', st') \<and>
       exit_status (Raise e') = 1 \<and>
       processed_jobs st' = processed_jobs st \<and>
       lookup (files st') (resolve (cwd st) (glob_lockfile cfg entry)) \<noteq> None)"
  proof
    assume h: "(\<forall>wd. call env (cmd cfg) wd = CannotLaunch e) \<and>
      os_path_isdir st entry \<and> \<not> os_path_isfile st (glob_lockfile cfg entry) \<and>
      (\<exists>st2. glob_claim env (glob_lockfile cfg entry)
             ((emit (Observed entry False) st)\<lparr>keep_looping := True\<rparr>) = Inr (True, st2))"
    then obtain st2 where
      "glob_claim env (glob_lockfile cfg entry)
         ((emit (Observed entry False) st)\<lparr>keep_looping := True\<rparr>) = Inr (True, st2)" by blast
    moreover from h have "\<forall>wd. call env (cmd cfg) wd = CannotLaunch e"
      and "os_path_isdir st entry" and "\<not> os_path_isfile st (glob_lockfile cfg entry)"
      by blast+
    ultimately have "\<exists>e' st'. glob_candidate env cfg home entry st = (Raise e', st') \<and>
           glob_entries env cfg home (entry # rest) st = (Raise e', st') \<and>
           processed_jobs st' = processed_jobs st \<and>
           lookup (files st') (resolve (cwd st) (glob_lockfile cfg entry)) \<noteq> None"
      using glob_candidate_cannot_launch [where env = env and cfg = cfg and e = e and st = st
          and entry = entry and ?st2.0 = st2 and home = home and rest = rest]
      by blast
    then obtain e' st' where
      "glob_candidate env cfg home entry st = (Raise e', st')"
      "glob_entries env cfg home (entry # rest) st = (Raise e', st')"
      "processed_jobs st' = processed_jobs st"
      "lookup (files st') (resolve (cwd st) (glob_lockfile cfg entry)) \<noteq> None"
      by blast
    then show "\<exists>e' st'. glob_candidate env cfg home entry st = (Raise e', st') \<and>
       glob_entries env cfg home (entry # rest) st = (Raise e', st') \<and>
       exit_status (Raise e') = 1 \<and>
       processed_jobs st' = processed_jobs st \<and>
       lookup (files st') (resolve (cwd st) (glob_lockfile cfg entry)) \<noteq> None"
      by (intro exI [of _ e'] exI [of _ st']) simp
  qed
  have r: "(\<forall>wd. call env (cmd cfg) wd = CannotLaunch e) \<and> e \<noteq> FileExistsError \<and>
    os_path_isdir st entry \<and> re_search env pattern entry = Some True \<and>
    \<not> os_path_isfile st (regex_lockfile basepath entry) \<and>
    (\<exists>st2. open_x ((emit (Observed entry False) st)\<lparr>keep_looping := True\<rparr>)
             (regex_lockfile basepath entry)
             (''Reserved by worker: '' @ worker_id env) = Inr st2) \<longrightarrow>
    (\<exists>e' st'. regex_candidate env cfg home basepath pattern entry st = (Raise e', st') \<and>
       regex_subdirs env cfg home basepath pattern (entry # rest) st = (Raise e', st') \<and>
       exit_status (Raise e') = 1 \<and>
       processed_jobs st' = processed_jobs st \<and>
       lookup (files st') (resolve (cwd st) (regex_lockfile basepath entry)) \<noteq> None)"
  proof
    assume h: "(\<forall>wd. call env (cmd cfg) wd = CannotLaunch e) \<and> e \<noteq> FileExistsError \<and>
      os_path_isdir st entry \<and> re_search env pattern entry = Some True \<and>
      \<not> os_path_isfile st (regex_lockfile basepath entry) \<and>
      (\<exists>st2. open_x ((emit (Observed entry False) st)\<lparr>keep_looping := True\<rparr>)
             (regex_lockfile basepath entry)
             (''Reserved by worker: '' @ worker_id env) = Inr st2)"
    then obtain st2 where
      "open_x ((emit (Observed entry False) st)\<lparr>keep_looping := True\<rparr>)
             (regex_lockfile basepath entry)
             (''Reserved by worker: '' @ worker_id env) = Inr st2" by blast
    moreover from h have "\<forall>wd. call env (cmd cfg) wd = CannotLaunch e"
      and "e \<noteq> FileExistsError"
      and "os_path_isdir st entry" and "re_search env pattern entry = Some True"
      and "\<not> os_path_isfile st (regex_lockfile basepath entry)"
      by blast+
    ultimately have "\<exists>e' st'.
           regex_candidate env cfg home basepath pattern entry st = (Raise e', st') \<and>
           regex_subdirs env cfg home basepath pattern (entry # rest) st = (Raise e', st') \<and>
           processed_jobs st' = processed_jobs st \<and>
           lookup (files st') (resolve (cwd st) (regex_lockfile basepath entry)) \<noteq> None"
      using regex_candidate_cannot_launch [where env = env and cfg = cfg and e = e and st = st
          and entry = entry and ?st2.0 = st2 and homepath = home and rest = rest
          and pattern = pattern and basepath = basepath]
      by blast
    then obtain e' st' where
      "regex_candidate env cfg home basepath pattern entry st = (Raise e', st')"
      "regex_subdirs env cfg home basepath pattern (entry # rest) st = (Raise e', st')"
      "processed_jobs st' = processed_jobs st"
      "lookup (files st') (resolve (cwd st) (regex_lockfile basepath entry)) \<noteq> None"
      by blast
    then show "\<exists>e' st'. regex_candidate env cfg home basepath pattern entry st = (Raise e', st') \<and>
       regex_subdirs env cfg home basepath pattern (entry # rest) st = (Raise e', st') \<and>
       exit_status (Raise e') = 1 \<and>
       processed_jobs st' = processed_jobs st \<and>
       lookup (files st') (resolve (cwd st) (regex_lockfile basepath entry)) \<noteq> None"
      by (intro exI [of _ e'] exI [of _ st']) simp
  qed
  from g r show ?thesis by (rule conjI)
qed


lemma env0_cannot_launch_nosuch:
  "\<forall>wd. call env0 [''nosuch''] wd = CannotLaunch FileNotFoundError"
  by (simp add: env0_def sh_def)

lemma st_open_job1:
  "os_path_isdir st_open ''job1'' \<and>
   \<not> os_path_isfile st_open (glob_lockfile glob_cfg_nosuch ''job1'') \<and>
   \<not> os_path_isfile st_open (regex_lockfile ''/home'' ''job1'') \<and>
   re_search env0 ''job'' ''job1'' = Some True \<and>
   cmd glob_cfg_nosuch = [''nosuch''] \<and> cmd regex_cfg_nosuch = [''nosuch'']"
  by code_simp

lemma st_open_glob_claim:
  "\<exists>st2. glob_claim env0 (glob_lockfile glob_cfg_nosuch ''job1'')
           ((emit (Observed ''job1'' False) st_open)\<lparr>keep_looping := True\<rparr>) = Inr (True, st2)"
proof -
  have "map_sum (\<lambda>e. e) fst
          (glob_claim env0 (glob_lockfile glob_cfg_nosuch ''job1'')
             ((emit (Observed ''job1'' False) st_open)\<lparr>keep_looping := True\<rparr>)) = Inr True"
    by code_simp
  then show ?thesis
    by (cases "glob_claim env0 (glob_lockfile glob_cfg_nosuch ''job1'')
             ((emit (Observed ''job1'' False) st_open)\<lparr>keep_looping := True\<rparr>)") auto
qed

lemma st_open_open_x:
  "\<exists>st2. open_x ((emit (Observed ''job1'' False) st_open)\<lparr>keep_looping := True\<rparr>)
           (regex_lockfile ''/home'' ''job1'')
           (''Reserved by worker: '' @ worker_id env0) = Inr st2"
proof -
  have "map_sum (\<lambda>e. e) (\<lambda>st. ())
          (open_x ((emit (Observed ''job1'' False) st_open)\<lparr>keep_looping := True\<rparr>)
             (regex_lockfile ''/home'' ''job1'')
             (''Reserved by worker: '' @ worker_id env0)) = Inr ()"
    by code_simp
  then show ?thesis
    by (cases "open_x ((emit (Observed ''job1'' False) st_open)\<lparr>keep_looping := True\<rparr>)
             (regex_lockfile ''/home'' ''job1'')
             (''Reserved by worker: '' @ worker_id env0)") auto
qed

theorem launch_failure_is_uncaught_witness:
  "(\<exists>e'. fst (glob_candidate env0 glob_cfg_nosuch [''home''] ''job1'' st_open) = Raise e') \<and>
   processed_jobs (snd (glob_candidate env0 glob_cfg_nosuch [''home''] ''job1'' st_open))
     = processed_jobs st_open \<and>
   (\<exists>e'. fst (regex_candidate env0 regex_cfg_nosuch [''home''] ''/home'' ''job'' ''job1'' st_open)
           = Raise e') \<and>
   processed_jobs (snd (regex_candidate env0 regex_cfg_nosuch [''home''] ''/home'' ''job'' ''job1'' st_open))
     = processed_jobs st_open"
proof -
  have ne: "FileNotFoundError \<noteq> FileExistsError" by simp
  note t = launch_failure_is_uncaught
    [where env = env0 and e = FileNotFoundError and st = st_open and entry = "''job1''"
       and home = "[''home'']" and rest = "[]"]
  from t [where cfg = glob_cfg_nosuch, THEN conjunct1]
    env0_cannot_launch_nosuch st_open_job1 st_open_glob_claim
  have g: "\<exists>e' st'. glob_candidate env0 glob_cfg_nosuch [''home''] ''job1'' st_open = (Raise e', st') \<and>
       glob_entries env0 glob_cfg_nosuch [''home''] [''job1''] st_open = (Raise e', st') \<and>
       exit_status (Raise e') = 1 \<and>
       processed_jobs st' = processed_jobs st_open \<and>
       lookup (files st') (resolve (cwd st_open) (glob_lockfile glob_cfg_nosuch ''job1'')) \<noteq> None"
    by simp
  from t [where cfg = regex_cfg_nosuch and pattern = "''job''" and basepath = "''/home''",
          THEN conjunct2]
    env0_cannot_launch_nosuch st_open_job1 st_open_open_x ne
  have r: "\<exists>e' st'.
       regex_candidate env0 regex_cfg_nosuch [''home''] ''/home'' ''job'' ''job1'' st_open
         = (Raise e', st') \<and>
       regex_subdirs env0 regex_cfg_nosuch [''home''] ''/home'' ''job'' [''job1''] st_open
         = (Raise e', st') \<and>
       exit_status (Raise e') = 1 \<and>
       processed_jobs st' = processed_jobs st_open \<and>
       lookup (files st') (resolve (cwd st_open) (regex_lockfile ''/home'' ''job1'')) \<noteq> None"
    by simp
  from g r show ?thesis by auto
qed








lemma duel_result':
  "map stage (racers (run_schedule glob_cfg_true [''home''] ''job1'' [0, 1, 1, 0, 1, 0]
      \<lparr>shared = fs5, racers = duel\<rparr>)) = [Lost, Finished]"
  by code_simp



end
